theory Spec2Isabelle
  imports Main
begin

section \<open>Data model\<close>

text \<open>
  The client of \<^verbatim>\<open>findapi\<close> (package root: the client file, \<^verbatim>\<open>errors.go\<close>, and
  \<^verbatim>\<open>auth/auth.go\<close>) is embedded as pure functions over an explicit world.

  Go's \<^verbatim>\<open>time.Duration\<close> is a count of nanoseconds; an instant (\<^verbatim>\<open>time.Time\<close>) is
  modelled as the number of nanoseconds since the Unix epoch.
\<close>

type_synonym duration = int
type_synonym time = int

definition Second :: duration where "Second = 1000000000"
definition Minute :: duration where "Minute = 60 * Second"

subsection \<open>Errors (errors.go)\<close>

text \<open>
  A Go \<^verbatim>\<open>error\<close> value is one of: the package's \<^verbatim>\<open>*APIError\<close>, the package's
  \<^verbatim>\<open>*RateLimitError\<close>, an error wrapped by \<^verbatim>\<open>fmt.Errorf("<text>: %w", err)\<close>
  (the text before the colon is kept), or an error value made outside the package
  (transport, URL parser, JSON decoder, context), identified by its message.
\<close>

datatype error =
    APIError int string
  | RateLimitError duration
  | Wrapped string error
  | Foreign string

text \<open>\<^verbatim>\<open>_, ok := err.(*RateLimitError)\<close>: a type assertion on the error value itself;
  it does not look through wrapping.\<close>

fun IsRateLimitError :: "error \<Rightarrow> bool" where
  "IsRateLimitError (RateLimitError d) = True"
| "IsRateLimitError e = False"

fun IsAPIError :: "error \<Rightarrow> bool" where
  "IsAPIError (APIError code msg) = True"
| "IsAPIError e = False"

subsection \<open>HTTP messages\<close>

text \<open>\<^verbatim>\<open>http.Header\<close> is a map from (canonical) header names to lists of values;
  \<^verbatim>\<open>Get\<close> returns the first value, or the empty string.\<close>

type_synonym header = "string \<rightharpoonup> string list"

definition Header_Get :: "header \<Rightarrow> string \<Rightarrow> string" where
  "Header_Get h k = (case h k of None \<Rightarrow> [] | Some [] \<Rightarrow> [] | Some (v # vs) \<Rightarrow> v)"

definition Header_Set :: "header \<Rightarrow> string \<Rightarrow> string \<Rightarrow> header" where
  "Header_Set h k v = h(k \<mapsto> [v])"

record response =
  StatusCode :: int
  Header :: header
  Body :: string

section \<open>The decode contract\<close>

text \<open>
  \<^verbatim>\<open>decodeResponse(resp, v)\<close>. The target \<^verbatim>\<open>v any\<close> is represented by what
  \<^verbatim>\<open>json.NewDecoder(resp.Body).Decode(v)\<close> does for it: a function from the body text to
  a decoding failure or the decoded value; \<open>None\<close> is the nil target. The result is the
  returned error (\<open>Inl\<close>) or, for a nil error, the value now stored in the target.
  \<^verbatim>\<open>io.ReadAll\<close>'s own error is dropped by the source (\<^verbatim>\<open>body, _ :=\<close>), so \<open>Body\<close> is
  the text that could be read.
\<close>

definition decodeResponse :: "response \<Rightarrow> (string \<Rightarrow> error + 'a) option \<Rightarrow> error + 'a option" where
  "decodeResponse resp v =
     (if StatusCode resp < 200 \<or> StatusCode resp \<ge> 300
      then Inl (APIError (StatusCode resp) (Body resp))
      else (case v of
              None \<Rightarrow> Inr None
            | Some decode \<Rightarrow>
                (case decode (Body resp) of
                   Inl e \<Rightarrow> Inl (Wrapped ''failed to decode response'' e)
                 | Inr x \<Rightarrow> Inr (Some x))))"

section \<open>Retry-delay extraction\<close>

subsection \<open>\<^verbatim>\<open>time.ParseDuration\<close> (Go standard library, \<^verbatim>\<open>time/format.go\<close>)\<close>

text \<open>
  \<^verbatim>\<open>getRetryAfter\<close> hands the header value with \<^verbatim>\<open>"s"\<close> appended to
  \<^verbatim>\<open>time.ParseDuration\<close>, so the parser's behaviour decides which header values count as
  "seconds". It is embedded here function by function. All its counters are \<^verbatim>\<open>uint64\<close>;
  they are natural numbers here, with the overflow tests of the source written out and
  \<open>mod 2 ^ 64\<close> where an addition can wrap. The one floating-point expression,
  \<^verbatim>\<open>uint64(float64(f) * (float64(unit) / scale))\<close> with \<open>scale = 10 ^ k\<close>, is a
  parameter \<open>fr f unit k\<close> of the model: it is reached only when the text has a
  fractional part with a non-zero digit.
\<close>

definition is_digit :: "char \<Rightarrow> bool" where
  "is_digit c = ((48::nat) \<le> of_char c \<and> of_char c \<le> (57::nat))"

definition digit_val :: "char \<Rightarrow> nat" where
  "digit_val c = of_char c - 48"

text \<open>\<^verbatim>\<open>leadingInt\<close>: consumes the leading \<^verbatim>\<open>[0-9]*\<close>; \<open>None\<close> is \<^verbatim>\<open>errLeadingInt\<close>.\<close>

fun leadingInt_from :: "nat \<Rightarrow> string \<Rightarrow> (nat \<times> string) option" where
  "leadingInt_from x [] = Some (x, [])"
| "leadingInt_from x (c # s) =
     (if \<not> is_digit c then Some (x, c # s)
      else if x > 2 ^ 63 div 10 then None
      else if x * 10 + digit_val c > 2 ^ 63 then None
      else leadingInt_from (x * 10 + digit_val c) s)"

definition leadingInt :: "string \<Rightarrow> (nat \<times> string) option" where
  "leadingInt s = leadingInt_from 0 s"

text \<open>\<^verbatim>\<open>leadingFraction\<close>: never fails; once \<^verbatim>\<open>overflow\<close> is set the remaining digits
  are skipped. Returns the digits' value, the number \<open>k\<close> of digits accumulated
  (\<^verbatim>\<open>scale\<close> is \<open>10 ^ k\<close>) and the rest of the text.\<close>

fun leadingFraction_from :: "nat \<Rightarrow> nat \<Rightarrow> bool \<Rightarrow> string \<Rightarrow> nat \<times> nat \<times> string" where
  "leadingFraction_from x k overflow [] = (x, k, [])"
| "leadingFraction_from x k overflow (c # s) =
     (if \<not> is_digit c then (x, k, c # s)
      else if overflow then leadingFraction_from x k overflow s
      else if x > (2 ^ 63 - 1) div 10 then leadingFraction_from x k True s
      else if x * 10 + digit_val c > 2 ^ 63 then leadingFraction_from x k True s
      else leadingFraction_from (x * 10 + digit_val c) (Suc k) overflow s)"

definition leadingFraction :: "string \<Rightarrow> nat \<times> nat \<times> string" where
  "leadingFraction s = leadingFraction_from 0 0 False s"

text \<open>\<^verbatim>\<open>unitMap\<close>; the two micro signs are given by their UTF-8 bytes.\<close>

definition unitMap :: "string \<rightharpoonup> nat" where
  "unitMap = [
     ''ns'' \<mapsto> 1,
     ''us'' \<mapsto> 1000,
     [CHR 0xC2, CHR 0xB5, CHR ''s''] \<mapsto> 1000,
     [CHR 0xCE, CHR 0xBC, CHR ''s''] \<mapsto> 1000,
     ''ms'' \<mapsto> 1000000,
     ''s'' \<mapsto> 1000000000,
     ''m'' \<mapsto> 60000000000,
     ''h'' \<mapsto> 3600000000000]"

definition in_unit :: "char \<Rightarrow> bool" where
  "in_unit c = (\<not> (c = CHR ''.'' \<or> is_digit c))"

text \<open>One pass through the body of the \<^verbatim>\<open>for s != ""\<close> loop of \<^verbatim>\<open>ParseDuration\<close>: a
  number, an optional fraction and a unit. Returns the value \<^verbatim>\<open>v\<close> that the pass adds to
  \<^verbatim>\<open>d\<close>, and the rest of the text. The loop enters the body with a non-empty text
  only.\<close>

definition parse_term :: "(nat \<Rightarrow> nat \<Rightarrow> nat \<Rightarrow> nat) \<Rightarrow> string \<Rightarrow> (nat \<times> string) option" where
  "parse_term fr s =
     (if s = [] \<or> \<not> (hd s = CHR ''.'' \<or> is_digit (hd s)) then None
      else (case leadingInt s of
        None \<Rightarrow> None
      | Some (v, s1) \<Rightarrow>
          (let pre = (length s \<noteq> length s1);
               dot = (s1 \<noteq> [] \<and> hd s1 = CHR ''.'');
               fks = (if dot then leadingFraction (tl s1) else (0, 0, s1));
               f = fst fks; k = fst (snd fks); s2 = snd (snd fks);
               post = (dot \<and> length (tl s1) \<noteq> length s2)
           in if \<not> pre \<and> \<not> post then None
              else if takeWhile in_unit s2 = [] then None
              else (case unitMap (takeWhile in_unit s2) of
                None \<Rightarrow> None
              | Some unit \<Rightarrow>
                  if v > 2 ^ 63 div unit then None
                  else if f > 0 \<and> (v * unit + fr f unit k) mod 2 ^ 64 > 2 ^ 63 then None
                  else Some (if f > 0 then (v * unit + fr f unit k) mod 2 ^ 64 else v * unit,
                             dropWhile in_unit s2)))))"


text \<open>The loop itself: \<^verbatim>\<open>d += v\<close> (which can wrap when both are \<open>2 ^ 63\<close>), then the
  test \<^verbatim>\<open>d > 1<<63\<close>. Every pass consumes at least the unit, so the loop ends; the
  test on the lengths states this for the termination proof and never fails.\<close>

function parse_loop :: "(nat \<Rightarrow> nat \<Rightarrow> nat \<Rightarrow> nat) \<Rightarrow> nat \<Rightarrow> string \<Rightarrow> nat option" where
  "parse_loop fr d s =
     (if s = [] then Some d
      else (case parse_term fr s of
        None \<Rightarrow> None
      | Some (v, rest) \<Rightarrow>
          if length rest < length s
          then (if (d + v) mod 2 ^ 64 > 2 ^ 63 then None
                else parse_loop fr ((d + v) mod 2 ^ 64) rest)
          else None))"
  by pat_completeness auto
termination
  by (relation "measure (\<lambda>(fr, d, s). length s)") auto

declare parse_loop.simps [simp del]

definition ParseDuration :: "(nat \<Rightarrow> nat \<Rightarrow> nat \<Rightarrow> nat) \<Rightarrow> string \<Rightarrow> duration option" where
  "ParseDuration fr s =
     (let signed = (s \<noteq> [] \<and> (hd s = CHR ''-'' \<or> hd s = CHR ''+''));
          neg = (signed \<and> hd s = CHR ''-'');
          s1 = (if signed then tl s else s)
      in if s1 = ''0'' then Some 0
         else if s1 = [] then None
         else (case parse_loop fr 0 s1 of
           None \<Rightarrow> None
         | Some d \<Rightarrow>
             if neg then Some (- int d)
             else if d > 2 ^ 63 - 1 then None
             else Some (int d)))"

subsection \<open>\<^verbatim>\<open>time.Until\<close>\<close>

text \<open>\<^verbatim>\<open>time.Until(t)\<close> is \<^verbatim>\<open>t.Sub(time.Now())\<close>, which saturates at the smallest and
  largest \<^verbatim>\<open>Duration\<close> instead of overflowing.\<close>

definition minDuration :: duration where "minDuration = - (2 ^ 63)"
definition maxDuration :: duration where "maxDuration = 2 ^ 63 - 1"

definition Until :: "time \<Rightarrow> time \<Rightarrow> duration" where
  "Until now t =
     (if t - now < minDuration then minDuration
      else if t - now > maxDuration then maxDuration
      else t - now)"

subsection \<open>\<^verbatim>\<open>getRetryAfter\<close>\<close>

text \<open>
  The parameters of \<^verbatim>\<open>getRetryAfter\<close> that the repository does not define:
  \<open>fr\<close>, the floating-point step of \<^verbatim>\<open>time.ParseDuration\<close>; \<open>ParseTime\<close>, the result of
  \<^verbatim>\<open>http.ParseTime\<close> on a text (\<open>None\<close> when it returns an error); and \<open>now\<close>, the
  reading of \<^verbatim>\<open>time.Now()\<close> when \<^verbatim>\<open>time.Until\<close> is evaluated.
\<close>

definition getRetryAfter ::
  "(nat \<Rightarrow> nat \<Rightarrow> nat \<Rightarrow> nat) \<Rightarrow> (string \<rightharpoonup> time) \<Rightarrow> time \<Rightarrow> response \<Rightarrow> duration" where
  "getRetryAfter fr ParseTime now resp =
     (let retryAfter = Header_Get (Header resp) ''Retry-After'' in
      if retryAfter = [] then Second
      else (case ParseDuration fr (retryAfter @ ''s'') of
        Some seconds \<Rightarrow> seconds
      | None \<Rightarrow>
          (case ParseTime retryAfter of
             Some t \<Rightarrow> Until now t
           | None \<Rightarrow> Second)))"


section \<open>The world outside the client\<close>

text \<open>
  What the client calls but the repository does not define is a parameter of the model.
  The record \<open>stdlib\<close> holds the pure functions of Go's standard library that the client
  uses and that are not embedded above; nothing is assumed about them.
\<close>

record url =
  Scheme :: string
  Host :: string
  Path :: string
  RawQuery :: string

type_synonym url_values = "string \<rightharpoonup> string list"

record request =
  Method :: string
  URL :: string
  RequestHeader :: header
  RequestBody :: "string option"

record TokenResponse =
  AccessToken :: string
  TokenType :: string
  ExpiresIn :: int
  RefreshToken :: string
  Scope :: string
  Exp :: int
  Iat :: int

record stdlib =
  frac :: "nat \<Rightarrow> nat \<Rightarrow> nat \<Rightarrow> nat"
  http_ParseTime :: "string \<rightharpoonup> time"
  url_Parse :: "string \<Rightarrow> error + url"
  url_String :: "url \<Rightarrow> string"
  Values_Encode :: "url_values \<Rightarrow> string"
  http_NewRequest :: "string \<Rightarrow> string \<Rightarrow> string option \<Rightarrow> error + request"
  base64_EncodeToString :: "string \<Rightarrow> string"
  Duration_String :: "duration \<Rightarrow> string"
  json_Decode_TokenResponse :: "string \<Rightarrow> error + TokenResponse"

text \<open>
  A \<^verbatim>\<open>context.Context\<close>: either its \<^verbatim>\<open>Done\<close> channel never closes, or it closes at an
  instant, after which \<^verbatim>\<open>Err()\<close> returns \<^verbatim>\<open>context.Canceled\<close> or
  \<^verbatim>\<open>context.DeadlineExceeded\<close>.
\<close>

datatype done_reason = Canceled | DeadlineExceeded

datatype Context = NeverDone | DoneAt time done_reason

fun ctx_Err :: "done_reason \<Rightarrow> error" where
  "ctx_Err Canceled = Foreign ''context canceled''"
| "ctx_Err DeadlineExceeded = Foreign ''context deadline exceeded''"

text \<open>
  The world a call runs in: the clock; the transport (\<^verbatim>\<open>c.httpClient\<close>), which for the
  \<open>n\<close>-th call of \<^verbatim>\<open>Do\<close> it receives and the request sent says how long the call takes
  and what it returns; the log of the calls made so far; and the choice \<^verbatim>\<open>select\<close> makes
  when both of its channels are ready (Go chooses at random).
\<close>

record call =
  sent_at :: time
  returned_at :: time
  sent :: request
  returned :: "error + response"

record world =
  now :: time
  transport :: "nat \<Rightarrow> request \<Rightarrow> nat \<times> (error + response)"
  calls :: "call list"
  timer_first :: "nat \<Rightarrow> bool"

text \<open>\<^verbatim>\<open>c.httpClient.Do(req)\<close>: one transport call. It is logged, and the clock advances by
  the time it took.\<close>

definition Do :: "world \<Rightarrow> request \<Rightarrow> (error + response) \<times> world" where
  "Do w req =
     (let n = length (calls w);
          took = fst (transport w n req);
          res = snd (transport w n req);
          t = now w + int took
      in (res, w\<lparr>now := t,
                  calls := calls w @ [\<lparr>sent_at = now w, returned_at = t, sent = req, returned = res\<rparr>]\<rparr>))"

text \<open>
  The \<^verbatim>\<open>select\<close> of the retry loop:
  \<^verbatim>\<open>
  select {
  case <-time.After(retryAfter): continue
  case <-ctx.Done(): return nil, ctx.Err()
  }
  \<close>
  The timer's channel is ready \<open>retryAfter\<close> after the \<^verbatim>\<open>select\<close> is entered (at once for a
  non-positive duration); the context's is ready from the instant it is done. The
  \<^verbatim>\<open>select\<close> takes the channel that is ready first and the clock moves to that instant.
  The result is \<open>None\<close> for \<^verbatim>\<open>continue\<close> and the context's error otherwise.
\<close>

definition select_wait :: "world \<Rightarrow> Context \<Rightarrow> duration \<Rightarrow> error option \<times> world" where
  "select_wait w ctx retryAfter =
     (let fire = now w + max 0 retryAfter in
      case ctx of
        NeverDone \<Rightarrow> (None, w\<lparr>now := fire\<rparr>)
      | DoneAt c why \<Rightarrow>
          if max (now w) c < fire \<or> (max (now w) c = fire \<and> \<not> timer_first w (length (calls w)))
          then (Some (ctx_Err why), w\<lparr>now := max (now w) c\<rparr>)
          else (None, w\<lparr>now := fire\<rparr>))"

section \<open>The client\<close>

text \<open>
  The fields of \<^verbatim>\<open>Client\<close> that the dispatcher reads or writes. \<^verbatim>\<open>httpClient\<close> is the
  world's transport; \<^verbatim>\<open>tokenMu\<close> has no effect in a single thread of control and is
  modelled only in the section on concurrent callers below; \<^verbatim>\<open>Body.Close()\<close> is not
  modelled. The \<^verbatim>\<open>auth.Service\<close> holds the same user name and password as the client
  (\<^verbatim>\<open>NewClient\<close>).
\<close>

record client =
  baseURL :: string
  username :: string
  password :: string
  accessToken :: string
  tokenExpiry :: time

subsection \<open>The credential exchange\<close>

definition DoRequestWithBasicAuth ::
  "stdlib \<Rightarrow> client \<Rightarrow> world \<Rightarrow> string \<Rightarrow> string \<Rightarrow> url_values option \<Rightarrow> string \<Rightarrow> string
     \<Rightarrow> (error + response) \<times> world" where
  "DoRequestWithBasicAuth L c w method path query user pass =
     (case url_Parse L (baseURL c @ path) of
        Inl e \<Rightarrow> (Inl (Wrapped ''invalid URL'' e), w)
      | Inr u \<Rightarrow>
          (case http_NewRequest L method
                  (url_String L (case query of None \<Rightarrow> u
                                 | Some q \<Rightarrow> u\<lparr>RawQuery := Values_Encode L q\<rparr>)) None of
             Inl e \<Rightarrow> (Inl (Wrapped ''failed to create request'' e), w)
           | Inr req \<Rightarrow>
               (case Do w (req\<lparr>RequestHeader :=
                       Header_Set
                         (Header_Set (RequestHeader req) ''Authorization''
                            (''Basic '' @ base64_EncodeToString L (user @ '':'' @ pass)))
                         ''Accept'' ''application/json''\<rparr>) of
                  (Inl e, w1) \<Rightarrow> (Inl (Wrapped ''request failed'' e), w1)
                | (Inr resp, w1) \<Rightarrow> (Inr resp, w1))))"

definition zeroTokenResponse :: TokenResponse where
  "zeroTokenResponse =
     \<lparr>AccessToken = [], TokenType = [], ExpiresIn = 0, RefreshToken = [], Scope = [],
      Exp = 0, Iat = 0\<rparr>"

text \<open>\<^verbatim>\<open>auth.Service.GenerateToken\<close> (auth/auth.go).\<close>

definition GenerateToken :: "stdlib \<Rightarrow> client \<Rightarrow> world \<Rightarrow> duration \<Rightarrow> (error + TokenResponse) \<times> world" where
  "GenerateToken L c w expiry =
     (case DoRequestWithBasicAuth L c w ''POST'' ''/auth/v1/generate''
             (Some [''expiry'' \<mapsto> [Duration_String L expiry]]) (username c) (password c) of
        (Inl e, w1) \<Rightarrow> (Inl e, w1)
      | (Inr resp, w1) \<Rightarrow>
          (case decodeResponse resp (Some (json_Decode_TokenResponse L)) of
             Inl e \<Rightarrow> (Inl e, w1)
           | Inr None \<Rightarrow> (Inr zeroTokenResponse, w1)
           | Inr (Some tokenResp) \<Rightarrow> (Inr tokenResp, w1)))"

subsection \<open>The token cache\<close>

text \<open>
  \<^verbatim>\<open>time.Unix(sec, 0)\<close> (Go standard library, \<^verbatim>\<open>time/time.go\<close>). The \<^verbatim>\<open>Time\<close> value
  keeps \<^verbatim>\<open>sec + unixToInternal\<close> in an \<^verbatim>\<open>int64\<close> field, the seconds since year 1;
  \<^verbatim>\<open>unixToInternal\<close> is the number of seconds from year 1 to 1970. The addition is an
  \<^verbatim>\<open>int64\<close> addition and wraps: it does for \<open>sec > 9223371974719179007\<close>, and the instant
  the value then stands for lies some 292 billion years in the past. \<^verbatim>\<open>Before\<close> compares
  these fields, so the instant that the wrapped field stands for is the one the cache
  compares with the clock. \<^verbatim>\<open>TokenResponse.Exp\<close> is an \<^verbatim>\<open>int64\<close>.
\<close>

definition unixToInternal :: int where
  "unixToInternal = 62135596800"

definition int64 :: "int \<Rightarrow> int" where
  "int64 x = (x + 2 ^ 63) mod 2 ^ 64 - 2 ^ 63"

definition Unix :: "int \<Rightarrow> time" where
  "Unix sec = (int64 (sec + unixToInternal) - unixToInternal) * Second"

text \<open>\<^verbatim>\<open>getValidToken\<close>: the check under the read lock, the same check again under the
  write lock, then the exchange.\<close>

definition getValidToken :: "stdlib \<Rightarrow> client \<Rightarrow> world \<Rightarrow> (error + string) \<times> client \<times> world" where
  "getValidToken L c w =
     (if accessToken c \<noteq> [] \<and> now w + Minute < tokenExpiry c then (Inr (accessToken c), c, w)
      else if accessToken c \<noteq> [] \<and> now w + Minute < tokenExpiry c then (Inr (accessToken c), c, w)
      else (case GenerateToken L c w (10 * Minute) of
              (Inl e, w1) \<Rightarrow> (Inl (Wrapped ''failed to generate token'' e), c, w1)
            | (Inr tokenResp, w1) \<Rightarrow>
                (Inr (AccessToken tokenResp),
                 c\<lparr>accessToken := AccessToken tokenResp, tokenExpiry := Unix (Exp tokenResp)\<rparr>,
                 w1)))"


subsection \<open>The dispatcher\<close>

text \<open>The first part of \<^verbatim>\<open>doRequest\<close>: build the URL, create the request, set the two
  content headers.\<close>

definition buildRequest ::
  "stdlib \<Rightarrow> client \<Rightarrow> string \<Rightarrow> string \<Rightarrow> url_values option \<Rightarrow> string option \<Rightarrow> error + request" where
  "buildRequest L c method path query body =
     (case url_Parse L (baseURL c @ path) of
        Inl e \<Rightarrow> Inl (Wrapped ''invalid URL'' e)
      | Inr u \<Rightarrow>
          (case http_NewRequest L method
                  (url_String L (case query of None \<Rightarrow> u
                                 | Some q \<Rightarrow> u\<lparr>RawQuery := Values_Encode L q\<rparr>)) body of
             Inl e \<Rightarrow> Inl (Wrapped ''failed to create request'' e)
           | Inr req \<Rightarrow>
               Inr (req\<lparr>RequestHeader :=
                      Header_Set (Header_Set (RequestHeader req) ''Content-Type'' ''application/json'')
                        ''Accept'' ''application/json''\<rparr>)))"

definition maxRetries :: nat where
  "maxRetries = 3"

definition StatusTooManyRequests :: int where
  "StatusTooManyRequests = 429"

text \<open>
  The retry loop \<^verbatim>\<open>for i := 0; i < maxRetries; i++\<close>, from the state at the loop test:
  the counter \<open>i\<close>, the variable \<^verbatim>\<open>resp\<close> (\<open>None\<close> is nil) and the world. \<^verbatim>\<open>break\<close> and
  the end of the loop both reach \<^verbatim>\<open>return resp, nil\<close>.
\<close>

function retry_loop ::
  "stdlib \<Rightarrow> Context \<Rightarrow> request \<Rightarrow> nat \<Rightarrow> response option \<Rightarrow> world
     \<Rightarrow> (error + response option) \<times> world" where
  "retry_loop L ctx req i resp w =
     (if i < maxRetries then
        (case Do w req of
           (Inl e, w1) \<Rightarrow> (Inl (Wrapped ''request failed'' e), w1)
         | (Inr r, w1) \<Rightarrow>
             if StatusCode r = StatusTooManyRequests then
               (if i < maxRetries - 1 then
                  (case select_wait w1 ctx (getRetryAfter (frac L) (http_ParseTime L) (now w1) r) of
                     (None, w2) \<Rightarrow> retry_loop L ctx req (i + 1) (Some r) w2
                   | (Some e, w2) \<Rightarrow> (Inl e, w2))
                else (Inl (RateLimitError (getRetryAfter (frac L) (http_ParseTime L) (now w1) r)), w1))
             else (Inr (Some r), w1))
      else (Inr resp, w))"
  by pat_completeness auto
termination
  by (relation "measure (\<lambda>(L, ctx, req, i, resp, w). maxRetries - i)") auto

declare retry_loop.simps [simp del]

text \<open>The next part: \<^verbatim>\<open>// Add authentication token (skip for auth endpoints)\<close>.\<close>

definition addAuthentication ::
  "stdlib \<Rightarrow> client \<Rightarrow> world \<Rightarrow> string \<Rightarrow> request \<Rightarrow> (error + request) \<times> client \<times> world" where
  "addAuthentication L c w path req =
     (if path \<noteq> ''/auth/v1/generate'' then
        (case getValidToken L c w of
           (Inl e, c1, w1) \<Rightarrow> (Inl (Wrapped ''failed to get valid token'' e), c1, w1)
         | (Inr token, c1, w1) \<Rightarrow>
             (Inr (req\<lparr>RequestHeader :=
                     Header_Set (RequestHeader req) ''Authorization'' (''Bearer '' @ token)\<rparr>),
              c1, w1))
      else (Inr req, c, w))"

text \<open>\<^verbatim>\<open>doRequest\<close>: the request, then the bearer token unless the path is the credential
  exchange's, then the retry loop.\<close>

definition doRequest ::
  "stdlib \<Rightarrow> Context \<Rightarrow> client \<Rightarrow> world \<Rightarrow> string \<Rightarrow> string \<Rightarrow> url_values option \<Rightarrow> string option
     \<Rightarrow> (error + response option) \<times> client \<times> world" where
  "doRequest L ctx c w method path query body =
     (case buildRequest L c method path query body of
        Inl e \<Rightarrow> (Inl e, c, w)
      | Inr req0 \<Rightarrow>
          (case addAuthentication L c w path req0 of
             (Inl e, c1, w1) \<Rightarrow> (Inl e, c1, w1)
           | (Inr req, c1, w1) \<Rightarrow>
               (case retry_loop L ctx req 0 None w1 of (res, w2) \<Rightarrow> (res, c1, w2))))"

text \<open>The exported \<^verbatim>\<open>DoRequest\<close> passes a nil body.\<close>

definition DoRequest ::
  "stdlib \<Rightarrow> Context \<Rightarrow> client \<Rightarrow> world \<Rightarrow> string \<Rightarrow> string \<Rightarrow> url_values option
     \<Rightarrow> (error + response option) \<times> client \<times> world" where
  "DoRequest L ctx c w method path query = doRequest L ctx c w method path query None"


section \<open>Concurrent callers of the token cache\<close>

text \<open>
  Several goroutines call \<^verbatim>\<open>getValidToken\<close> on one client. Each is at one of the
  following places of the function:
  \<^item> \<open>AtRLock\<close>: before \<^verbatim>\<open>c.tokenMu.RLock()\<close>;
  \<^item> \<open>AtRead\<close>: holding the read lock, before copying \<^verbatim>\<open>accessToken\<close> and \<^verbatim>\<open>tokenExpiry\<close>
    and \<^verbatim>\<open>RUnlock()\<close>;
  \<^item> \<open>AtCheck token expiry\<close>: with the two copies, before the first validity test;
  \<^item> \<open>AtLock\<close>: before \<^verbatim>\<open>c.tokenMu.Lock()\<close>;
  \<^item> \<open>AtRecheck\<close>: holding the write lock, before the second validity test;
  \<^item> \<open>AtExchange\<close>: holding the write lock, inside \<^verbatim>\<open>c.Auth.GenerateToken\<close>;
  \<^item> \<open>Finished r\<close>: returned \<open>r\<close>; the deferred \<^verbatim>\<open>Unlock()\<close> has run.
\<close>

datatype place =
    AtRLock
  | AtRead
  | AtCheck string time
  | AtLock
  | AtRecheck
  | AtExchange
  | Finished "error + string"

text \<open>
  What the goroutines share: the two token fields of the client, the state of
  \<^verbatim>\<open>tokenMu\<close> (the number of read locks held and whether the write lock is held), the
  clock, and the number of credential exchanges started so far, which is what an
  instrumented exchange endpoint counts.
\<close>

record system =
  cache :: client
  readers :: nat
  writer :: bool
  clock :: time
  exchanges :: nat
  callers :: "place list"

text \<open>
  A schedule is a list of actions: the clock advances; caller \<open>i\<close> takes its next step; the
  exchange that caller \<open>i\<close> is waiting for returns a result. \<open>perform\<close> gives the next
  state, or \<open>None\<close> when the action cannot happen in this state (a caller blocked on the
  mutex, an exchange that is not in flight). \<^verbatim>\<open>RLock\<close> waits while the write lock is
  held, \<^verbatim>\<open>Lock\<close> waits while any lock is held; Go's mutex also holds new readers back
  while a writer waits, so every schedule of the program is a schedule here.
\<close>

datatype action = Advance nat | Proceed nat | Returns nat "error + TokenResponse"

definition move :: "system \<Rightarrow> nat \<Rightarrow> place \<Rightarrow> system" where
  "move s i p = s\<lparr>callers := (callers s)[i := p]\<rparr>"

fun proceed :: "system \<Rightarrow> nat \<Rightarrow> place \<Rightarrow> system option" where
  "proceed s i AtRLock =
     (if writer s then None else Some (move (s\<lparr>readers := Suc (readers s)\<rparr>) i AtRead))"
| "proceed s i AtRead =
     Some (move (s\<lparr>readers := readers s - 1\<rparr>) i
             (AtCheck (accessToken (cache s)) (tokenExpiry (cache s))))"
| "proceed s i (AtCheck token expiry) =
     (if token \<noteq> [] \<and> clock s + Minute < expiry then Some (move s i (Finished (Inr token)))
      else Some (move s i AtLock))"
| "proceed s i AtLock =
     (if writer s \<or> 0 < readers s then None else Some (move (s\<lparr>writer := True\<rparr>) i AtRecheck))"
| "proceed s i AtRecheck =
     (if accessToken (cache s) \<noteq> [] \<and> clock s + Minute < tokenExpiry (cache s)
      then Some (move (s\<lparr>writer := False\<rparr>) i (Finished (Inr (accessToken (cache s)))))
      else Some (move (s\<lparr>exchanges := Suc (exchanges s)\<rparr>) i AtExchange))"
| "proceed s i AtExchange = None"
| "proceed s i (Finished r) = None"

fun perform :: "action \<Rightarrow> system \<Rightarrow> system option" where
  "perform (Advance d) s = Some (s\<lparr>clock := clock s + int d\<rparr>)"
| "perform (Proceed i) s = (if i < length (callers s) then proceed s i (callers s ! i) else None)"
| "perform (Returns i res) s =
     (if i < length (callers s) \<and> callers s ! i = AtExchange then
        (case res of
           Inl e \<Rightarrow>
             Some (move (s\<lparr>writer := False\<rparr>) i
                     (Finished (Inl (Wrapped ''failed to generate token'' e))))
         | Inr tokenResp \<Rightarrow>
             Some (move (s\<lparr>cache := (cache s)\<lparr>accessToken := AccessToken tokenResp,
                                               tokenExpiry := Unix (Exp tokenResp)\<rparr>,
                            writer := False\<rparr>) i
                     (Finished (Inr (AccessToken tokenResp)))))
      else None)"

fun run :: "action list \<Rightarrow> system \<Rightarrow> system option" where
  "run [] s = Some s"
| "run (a # as) s = (case perform a s of None \<Rightarrow> None | Some s' \<Rightarrow> run as s')"

definition initial :: "nat \<Rightarrow> client \<Rightarrow> time \<Rightarrow> system" where
  "initial n c t0 =
     \<lparr>cache = c, readers = 0, writer = False, clock = t0, exchanges = 0,
      callers = replicate n AtRLock\<rparr>"

text \<open>The token test of \<^verbatim>\<open>getValidToken\<close>, at time \<open>t\<close>.\<close>

definition usable :: "string \<Rightarrow> time \<Rightarrow> time \<Rightarrow> bool" where
  "usable token expiry t = (token \<noteq> [] \<and> t + Minute < expiry)"

text \<open>An action of a schedule in which every exchange succeeds with a token that passes
  the token test up to time \<open>t\<close>.\<close>

fun exchange_good :: "time \<Rightarrow> action \<Rightarrow> bool" where
  "exchange_good t (Returns i (Inr tokenResp)) = usable (AccessToken tokenResp) (Unix (Exp tokenResp)) t"
| "exchange_good t (Returns i (Inl e)) = False"
| "exchange_good t a = True"

fun is_Finished :: "place \<Rightarrow> bool" where
  "is_Finished (Finished r) = True"
| "is_Finished p = False"

fun holds_lock :: "place \<Rightarrow> bool" where
  "holds_lock AtRecheck = True"
| "holds_lock AtExchange = True"
| "holds_lock p = False"

text \<open>
  The invariant of the runs that start from a cache \<open>c\<close> which is stale at \<open>t0\<close> and in
  which exchanges are good up to time \<open>T\<close>. The write lock is held by exactly the one
  caller that is between \<^verbatim>\<open>Lock()\<close> and its return. Before the first exchange the cache is
  \<open>c\<close>, nobody has returned, and every copy taken of the cache is a copy of \<open>c\<close>. After it,
  either it is still in flight or the cache holds its token.
\<close>

definition no_holder :: "place list \<Rightarrow> bool" where
  "no_holder P = list_all (\<lambda>p. \<not> holds_lock p) P"

definition one_holder :: "place list \<Rightarrow> bool" where
  "one_holder P =
     (\<exists>i < length P. holds_lock (P ! i) \<and> (\<forall>j < length P. j \<noteq> i \<longrightarrow> \<not> holds_lock (P ! j)))"

fun untouched :: "client \<Rightarrow> place \<Rightarrow> bool" where
  "untouched c AtExchange = False"
| "untouched c (Finished r) = False"
| "untouched c (AtCheck token expiry) = (token = accessToken c \<and> expiry = tokenExpiry c)"
| "untouched c p = True"

definition cache_inv :: "client \<Rightarrow> time \<Rightarrow> time \<Rightarrow> system \<Rightarrow> bool" where
  "cache_inv c t0 T s =
     (t0 \<le> clock s
      \<and> (if writer s then one_holder (callers s) else no_holder (callers s))
      \<and> exchanges s \<le> 1
      \<and> (exchanges s = 0 \<longrightarrow> cache s = c \<and> list_all (untouched c) (callers s))
      \<and> (exchanges s = 1 \<longrightarrow>
            AtExchange \<in> set (callers s)
            \<or> usable (accessToken (cache s)) (tokenExpiry (cache s)) T))"

section \<open>Notions used to state the properties\<close>

text \<open>The context is not done up to and including the instant \<open>t\<close>.\<close>

fun live_at :: "Context \<Rightarrow> time \<Rightarrow> bool" where
  "live_at NeverDone t = True"
| "live_at (DoneAt c why) t = (t < c)"




section \<open>Sample inputs\<close>

text \<open>A stand-in for the standard library, and responses, clients and worlds on which
  the definitions are run.\<close>

definition sample_token :: TokenResponse where
  "sample_token =
     \<lparr>AccessToken = ''test-token'', TokenType = ''Bearer'', ExpiresIn = 600, RefreshToken = [],
      Scope = [], Exp = 600, Iat = 0\<rparr>"

definition sample_lib :: stdlib where
  "sample_lib =
     \<lparr>frac = (\<lambda>f unit k. f * unit div 10 ^ k),
      http_ParseTime = [''Wed, 21 Oct 2015 07:28:00 GMT'' \<mapsto> 1445412480000000000],
      url_Parse = (\<lambda>s. Inr \<lparr>Scheme = [], Host = [], Path = s, RawQuery = []\<rparr>),
      url_String = (\<lambda>u. Path u @ ''?'' @ RawQuery u),
      Values_Encode = (\<lambda>q. []),
      http_NewRequest =
        (\<lambda>m u b. Inr \<lparr>Method = m, URL = u, RequestHeader = Map.empty, RequestBody = b\<rparr>),
      base64_EncodeToString = (\<lambda>s. s),
      Duration_String = (\<lambda>d. ''10m0s''),
      json_Decode_TokenResponse =
        (\<lambda>s. if s = ''token'' then Inr sample_token
             else Inl (Foreign ''unexpected end of JSON input''))\<rparr>"

definition too_many :: "string \<Rightarrow> response" where
  "too_many h = \<lparr>StatusCode = 429, Header = [''Retry-After'' \<mapsto> [h]], Body = []\<rparr>"

definition token_response :: response where
  "token_response = \<lparr>StatusCode = 200, Header = Map.empty, Body = ''token''\<rparr>"

definition not_found :: response where
  "not_found = \<lparr>StatusCode = 404, Header = Map.empty, Body = ''no such block''\<rparr>"

definition ok_response :: response where
  "ok_response = \<lparr>StatusCode = 200, Header = Map.empty, Body = ''{}''\<rparr>"

definition cached_client :: client where
  "cached_client =
     \<lparr>baseURL = ''https://api.find.xyz'', username = ''u'', password = ''p'',
      accessToken = ''test-token'', tokenExpiry = 600000000000\<rparr>"

definition empty_client :: client where
  "empty_client =
     \<lparr>baseURL = ''https://api.find.xyz'', username = ''u'', password = ''p'',
      accessToken = [], tokenExpiry = 0\<rparr>"

definition sample_request0 :: request where
  "sample_request0 =
     \<lparr>Method = ''GET'', URL = ''https://api.find.xyz/flow/v1/block?'',
      RequestHeader =
        [''Content-Type'' \<mapsto> [''application/json''], ''Accept'' \<mapsto> [''application/json'']],
      RequestBody = None\<rparr>"

definition sample_request :: request where
  "sample_request =
     sample_request0\<lparr>RequestHeader :=
       Header_Set (RequestHeader sample_request0) ''Authorization'' ''Bearer test-token''\<rparr>"

definition world_with :: "(nat \<Rightarrow> request \<Rightarrow> nat \<times> (error + response)) \<Rightarrow> world" where
  "world_with tr = \<lparr>now = 0, transport = tr, calls = [], timer_first = (\<lambda>n. True)\<rparr>"

definition always_429 :: "nat \<Rightarrow> request \<Rightarrow> nat \<times> (error + response)" where
  "always_429 n req = (5000000, Inr (too_many ''1''))"

definition once_429 :: "nat \<Rightarrow> request \<Rightarrow> nat \<times> (error + response)" where
  "once_429 n req = (5000000, Inr (if n = 0 then too_many ''1'' else ok_response))"

definition exchange_then_429 :: "nat \<Rightarrow> request \<Rightarrow> nat \<times> (error + response)" where
  "exchange_then_429 n req = (5000000, Inr (if n = 0 then token_response else too_many ''1''))"

definition always_404 :: "nat \<Rightarrow> request \<Rightarrow> nat \<times> (error + response)" where
  "always_404 n req = (5000000, Inr not_found)"

definition unreachable :: "nat \<Rightarrow> request \<Rightarrow> nat \<times> (error + response)" where
  "unreachable n req = (0, Inl (Foreign ''connection refused''))"


section \<open>Properties\<close>

subsection \<open>The decode contract\<close>

text \<open>
  Claim C8. \<^verbatim>\<open>decodeResponse\<close> returns an API error, carrying the status code and the body
  text, exactly when the status is outside \<open>[200, 300)\<close>: outside the range that is the
  result, and inside the range no returned error is an API error. For a status inside the
  range and a target whose decoding of the body fails, the result is the decoding failure
  wrapped as "failed to decode response", for which \<^verbatim>\<open>IsAPIError\<close> is false.
\<close>

theorem decodeResponse_classification:
  fixes v :: "(string \<Rightarrow> error + 'a) option"
  shows "(StatusCode resp < 200 \<or> 300 \<le> StatusCode resp
            \<longrightarrow> decodeResponse resp v = Inl (APIError (StatusCode resp) (Body resp)))
       \<and> (200 \<le> StatusCode resp \<and> StatusCode resp < 300
            \<longrightarrow> (\<forall>e. decodeResponse resp v = Inl e \<longrightarrow> \<not> IsAPIError e))
       \<and> (200 \<le> StatusCode resp \<and> StatusCode resp < 300
            \<longrightarrow> (\<forall>decode e. v = Some decode \<and> decode (Body resp) = Inl e
                  \<longrightarrow> decodeResponse resp v = Inl (Wrapped ''failed to decode response'' e)
                      \<and> \<not> IsAPIError (Wrapped ''failed to decode response'' e)))"
  by (auto simp: decodeResponse_def split: option.splits sum.splits)

theorem decodeResponse_classification_witness:
  "decodeResponse not_found (None :: (string \<Rightarrow> error + nat) option)
     = Inl (APIError 404 ''no such block'')
   \<and> IsAPIError (APIError 404 ''no such block'')
   \<and> decodeResponse ok_response
         (Some (\<lambda>s. Inl (Foreign ''unexpected end of JSON input'') :: error + nat))
       = Inl (Wrapped ''failed to decode response'' (Foreign ''unexpected end of JSON input''))
   \<and> \<not> IsAPIError (Wrapped ''failed to decode response'' (Foreign ''unexpected end of JSON input''))"
  using decodeResponse_classification [of not_found "None :: (string \<Rightarrow> error + nat) option"]
        decodeResponse_classification [of ok_response
          "Some (\<lambda>s. Inl (Foreign ''unexpected end of JSON input'') :: error + nat)"]
  by (simp add: not_found_def ok_response_def)


subsection \<open>Retry-delay extraction\<close>









lemma parse_loop_Nil: "parse_loop fr d [] = Some d"
  by (subst parse_loop.simps) simp



lemmas ParseDuration_eval =
  ParseDuration_def parse_term_def leadingInt_def leadingFraction_def is_digit_def
  digit_val_def unitMap_def in_unit_def parse_loop_Nil









subsection \<open>The token cache\<close>

text \<open>\<^verbatim>\<open>time.Unix\<close> stores the instant it is given as long as the seconds since year 1
  fit an \<^verbatim>\<open>int64\<close>; beyond that the stored instant is in the distant past.\<close>

lemma Unix_in_range:
  "- 9223372098990372608 \<le> sec \<Longrightarrow> sec \<le> 9223371974719179007 \<Longrightarrow> Unix sec = sec * Second"
  by (simp add: Unix_def int64_def unixToInternal_def)

lemma Unix_wraps: "Unix 9223372036854775807 = - 9223372036854775809 * Second"
  by (simp add: Unix_def int64_def unixToInternal_def)

text \<open>
  Claim C4. When a token is cached (the access token is not empty) and its expiry is more
  than one minute after the current time, \<^verbatim>\<open>getValidToken\<close> returns that token at once:
  the client and the world are left as they were, so no transport call is made and the
  credential exchange is not invoked.
\<close>

theorem getValidToken_cached:
  assumes "accessToken c \<noteq> []" and "now w + Minute < tokenExpiry c"
  shows "getValidToken L c w = (Inr (accessToken c), c, w)
       \<and> calls (snd (snd (getValidToken L c w))) = calls w"
  using assms by (simp add: getValidToken_def)

theorem getValidToken_cached_witness:
  "accessToken cached_client \<noteq> []
   \<and> now (world_with unreachable) + Minute < tokenExpiry cached_client
   \<and> getValidToken sample_lib cached_client (world_with unreachable)
       = (Inr ''test-token'', cached_client, world_with unreachable)
   \<and> calls (snd (snd (getValidToken sample_lib cached_client (world_with unreachable)))) = []"
  using getValidToken_cached [of cached_client "world_with unreachable" sample_lib]
  by (simp add: cached_client_def world_with_def Minute_def Second_def)

lemma GenerateToken_unreachable:
  "GenerateToken sample_lib empty_client (world_with unreachable) (10 * Minute)
     = (Inl (Wrapped ''request failed'' (Foreign ''connection refused'')),
        snd (Do (world_with unreachable)
           \<lparr>Method = ''POST'', URL = ''https://api.find.xyz/auth/v1/generate?'',
            RequestHeader = [''Authorization'' \<mapsto> [''Basic u:p''], ''Accept'' \<mapsto> [''application/json'']],
            RequestBody = None\<rparr>))"
  by (simp add: GenerateToken_def DoRequestWithBasicAuth_def sample_lib_def empty_client_def
        Do_def world_with_def unreachable_def Header_Set_def Let_def)

text \<open>
  Claim C5, as amended. When the cached token does not pass the validity check and the
  credential exchange \<^verbatim>\<open>GenerateToken(ctx, 10*time.Minute)\<close> fails with an error \<open>e\<close>,
  \<^verbatim>\<open>getValidToken\<close> returns \<open>e\<close> wrapped with the text "failed to generate token", and
  the client, with its \<^verbatim>\<open>accessToken\<close> and \<^verbatim>\<open>tokenExpiry\<close>, is unchanged.
\<close>

theorem getValidToken_refresh_failure:
  assumes "\<not> (accessToken c \<noteq> [] \<and> now w + Minute < tokenExpiry c)"
    and "GenerateToken L c w (10 * Minute) = (Inl e, w1)"
  shows "getValidToken L c w = (Inl (Wrapped ''failed to generate token'' e), c, w1)"
  using assms by (simp add: getValidToken_def)

theorem getValidToken_refresh_failure_witness:
  "\<not> (accessToken empty_client \<noteq> [] \<and> now (world_with unreachable) + Minute < tokenExpiry empty_client)
   \<and> fst (getValidToken sample_lib empty_client (world_with unreachable))
       = Inl (Wrapped ''failed to generate token''
               (Wrapped ''request failed'' (Foreign ''connection refused'')))
   \<and> fst (snd (getValidToken sample_lib empty_client (world_with unreachable))) = empty_client"
  using getValidToken_refresh_failure [of empty_client "world_with unreachable" sample_lib,
          OF _ GenerateToken_unreachable]
  by (simp add: empty_client_def)

theorem getValidToken_marker_counterexample:
  "fst (getValidToken sample_lib empty_client (world_with unreachable))
     = Inl (Wrapped ''failed to generate token''
             (Wrapped ''request failed'' (Foreign ''connection refused'')))
   \<and> fst (getValidToken sample_lib empty_client (world_with unreachable))
     \<noteq> Inl (Wrapped ''token refresh failed''
             (Wrapped ''request failed'' (Foreign ''connection refused'')))"
proof -
  have "accessToken empty_client = []" by (simp add: empty_client_def)
  then show ?thesis by (simp add: getValidToken_def GenerateToken_unreachable)
qed


subsection \<open>The dispatcher\<close>

lemma Do_result: "fst (Do w req) = snd (transport w (length (calls w)) req)"
  by (simp add: Do_def Let_def)

lemma Do_now: "now (snd (Do w req)) = now w + int (fst (transport w (length (calls w)) req))"
  by (simp add: Do_def Let_def)

lemma Do_calls:
  "calls (snd (Do w req)) =
     calls w @ [\<lparr>sent_at = now w, returned_at = now (snd (Do w req)), sent = req,
                returned = fst (Do w req)\<rparr>]"
  by (simp add: Do_def Let_def)

lemma Do_frame:
  "transport (snd (Do w req)) = transport w" "timer_first (snd (Do w req)) = timer_first w"
  by (simp_all add: Do_def Let_def)

lemma select_wait_frame:
  "transport (snd (select_wait w ctx d)) = transport w"
  "calls (snd (select_wait w ctx d)) = calls w"
  "timer_first (snd (select_wait w ctx d)) = timer_first w"
  by (simp_all add: select_wait_def Let_def split: Context.splits)

lemma select_wait_now: "now w \<le> now (snd (select_wait w ctx d))"
  by (simp add: select_wait_def Let_def split: Context.splits)

lemma select_wait_timer:
  "fst (select_wait w ctx d) = None \<Longrightarrow> now (snd (select_wait w ctx d)) = now w + max 0 d"
  by (auto simp: select_wait_def Let_def split: Context.splits if_splits)

lemma select_wait_done:
  "fst (select_wait w ctx d) = Some e \<Longrightarrow> \<not> live_at ctx (now (snd (select_wait w ctx d)))"
  by (auto simp: select_wait_def Let_def split: Context.splits if_splits)

lemma select_wait_live:
  "live_at ctx (now w + max 0 d) \<Longrightarrow> fst (select_wait w ctx d) = None"
  by (cases ctx) (auto simp: select_wait_def Let_def)

lemma select_wait_interrupted:
  "now w \<le> c \<Longrightarrow> c < now w + d \<Longrightarrow>
     select_wait w (DoneAt c why) d = (Some (ctx_Err why), w\<lparr>now := c\<rparr>)"
  by (simp add: select_wait_def Let_def max_def)

lemma retry_loop_transport_error:
  "i < maxRetries \<Longrightarrow> fst (Do w req) = Inl e \<Longrightarrow>
     retry_loop L ctx req i resp w = (Inl (Wrapped ''request failed'' e), snd (Do w req))"
  by (subst retry_loop.simps, cases "Do w req") auto

lemma retry_loop_break:
  "i < maxRetries \<Longrightarrow> fst (Do w req) = Inr r \<Longrightarrow> StatusCode r \<noteq> StatusTooManyRequests \<Longrightarrow>
     retry_loop L ctx req i resp w = (Inr (Some r), snd (Do w req))"
  by (subst retry_loop.simps, cases "Do w req") auto

lemma retry_loop_exhausted:
  "Suc i = maxRetries \<Longrightarrow> fst (Do w req) = Inr r \<Longrightarrow> StatusCode r = StatusTooManyRequests \<Longrightarrow>
     retry_loop L ctx req i resp w =
       (Inl (RateLimitError (getRetryAfter (frac L) (http_ParseTime L) (now (snd (Do w req))) r)),
        snd (Do w req))"
  by (subst retry_loop.simps, cases "Do w req") auto

lemma retry_loop_continue:
  "Suc i < maxRetries \<Longrightarrow> fst (Do w req) = Inr r \<Longrightarrow> StatusCode r = StatusTooManyRequests \<Longrightarrow>
   fst (select_wait (snd (Do w req)) ctx
          (getRetryAfter (frac L) (http_ParseTime L) (now (snd (Do w req))) r)) = None \<Longrightarrow>
     retry_loop L ctx req i resp w =
       retry_loop L ctx req (Suc i) (Some r)
         (snd (select_wait (snd (Do w req)) ctx
                (getRetryAfter (frac L) (http_ParseTime L) (now (snd (Do w req))) r)))"
  by (subst retry_loop.simps, cases "Do w req",
      cases "select_wait (snd (Do w req)) ctx
               (getRetryAfter (frac L) (http_ParseTime L) (now (snd (Do w req))) r)") auto

lemma retry_loop_cancelled:
  "Suc i < maxRetries \<Longrightarrow> fst (Do w req) = Inr r \<Longrightarrow> StatusCode r = StatusTooManyRequests \<Longrightarrow>
   fst (select_wait (snd (Do w req)) ctx
          (getRetryAfter (frac L) (http_ParseTime L) (now (snd (Do w req))) r)) = Some e \<Longrightarrow>
     retry_loop L ctx req i resp w =
       (Inl e, snd (select_wait (snd (Do w req)) ctx
                (getRetryAfter (frac L) (http_ParseTime L) (now (snd (Do w req))) r)))"
  by (subst retry_loop.simps, cases "Do w req",
      cases "select_wait (snd (Do w req)) ctx
               (getRetryAfter (frac L) (http_ParseTime L) (now (snd (Do w req))) r)") auto

lemma doRequest_loop:
  "buildRequest L c method path query body = Inr req0 \<Longrightarrow>
   addAuthentication L c w path req0 = (Inr req, c1, w1) \<Longrightarrow>
     doRequest L ctx c w method path query body =
       (fst (retry_loop L ctx req 0 None w1), c1, snd (retry_loop L ctx req 0 None w1))"
  by (simp add: doRequest_def split: prod.splits)

lemma sample_build:
  "buildRequest sample_lib cached_client ''GET'' ''/flow/v1/block'' None None = Inr sample_request0"
  by (simp add: buildRequest_def sample_lib_def cached_client_def sample_request0_def Header_Set_def)

lemma sample_auth:
  "addAuthentication sample_lib cached_client (world_with tr) ''/flow/v1/block'' sample_request0
     = (Inr sample_request, cached_client, world_with tr)"
  by (simp add: addAuthentication_def getValidToken_def cached_client_def world_with_def
        Minute_def Second_def sample_request_def)

text \<open>
  Claim C7. When the request has been built and authorised and the first transport attempt
  returns a response whose status is not 429 (a 404, say), \<^verbatim>\<open>doRequest\<close> returns that very
  response, not an error, and the loop has made exactly one transport call: the log grows
  by the one call that sent the request and returned the response.
\<close>

theorem doRequest_no_retry_unless_429:
  assumes build: "buildRequest L c method path query body = Inr req0"
    and auth: "addAuthentication L c w path req0 = (Inr req, c1, w1)"
    and first: "snd (transport w1 (length (calls w1)) req) = Inr r"
    and status: "StatusCode r \<noteq> StatusTooManyRequests"
  shows "fst (doRequest L ctx c w method path query body) = Inr (Some r)
       \<and> (\<exists>t. calls (snd (snd (doRequest L ctx c w method path query body))) =
               calls w1 @ [\<lparr>sent_at = now w1, returned_at = t, sent = req, returned = Inr r\<rparr>])"
proof -
  have res: "fst (Do w1 req) = Inr r" using first by (simp add: Do_result)
  have "retry_loop L ctx req 0 None w1 = (Inr (Some r), snd (Do w1 req))"
    using res status by (intro retry_loop_break) (simp_all add: maxRetries_def)
  then show ?thesis
    using doRequest_loop [OF build auth, of ctx] Do_calls [of w1 req] res by simp
qed

theorem doRequest_no_retry_unless_429_witness:
  "fst (doRequest sample_lib NeverDone cached_client (world_with always_404)
          ''GET'' ''/flow/v1/block'' None None) = Inr (Some not_found)
   \<and> StatusCode not_found = 404
   \<and> length (calls (snd (snd (doRequest sample_lib NeverDone cached_client (world_with always_404)
          ''GET'' ''/flow/v1/block'' None None)))) = 1"
proof -
  have first: "snd (transport (world_with always_404) (length (calls (world_with always_404)))
                  sample_request) = Inr not_found"
    by (simp add: world_with_def always_404_def)
  have status: "StatusCode not_found \<noteq> StatusTooManyRequests"
    by (simp add: not_found_def StatusTooManyRequests_def)
  show ?thesis
    using doRequest_no_retry_unless_429 [OF sample_build sample_auth first status, of NeverDone]
    by (auto simp: world_with_def not_found_def)
qed

text \<open>The calls a run of the loop adds to the log: first the call of its first iteration,
  then at most \<open>maxRetries - i - 1\<close> more, all sending the same request.\<close>

lemma retry_loop_calls:
  "i < maxRetries \<Longrightarrow>
     \<exists>rest. calls (snd (retry_loop L ctx req i resp w)) =
              calls w @ \<lparr>sent_at = now w, returned_at = now (snd (Do w req)), sent = req,
                         returned = fst (Do w req)\<rparr> # rest
         \<and> Suc (length rest) \<le> maxRetries - i \<and> (\<forall>k \<in> set rest. sent k = req)"
proof (induction "maxRetries - i" arbitrary: i resp w)
  case 0
  then show ?case by simp
next
  case (Suc n)
  let ?w1 = "snd (Do w req)"
  let ?entry = "\<lparr>sent_at = now w, returned_at = now ?w1, sent = req, returned = fst (Do w req)\<rparr>"
  have c1: "calls ?w1 = calls w @ [?entry]" by (rule Do_calls)
  have one: "\<exists>rest. calls ?w1 = calls w @ ?entry # rest
         \<and> Suc (length rest) \<le> maxRetries - i \<and> (\<forall>k \<in> set rest. sent k = req)"
    using c1 Suc.prems by (intro exI [of _ "[]"]) simp
  show ?case
  proof (cases "fst (Do w req)")
    case (Inl e)
    then show ?thesis using one retry_loop_transport_error [OF Suc.prems Inl] by simp
  next
    case (Inr r)
    show ?thesis
    proof (cases "StatusCode r = StatusTooManyRequests")
      case False
      then show ?thesis using one retry_loop_break [OF Suc.prems Inr False] by simp
    next
      case True
      let ?d = "getRetryAfter (frac L) (http_ParseTime L) (now ?w1) r"
      let ?w2 = "snd (select_wait ?w1 ctx ?d)"
      have c2: "calls ?w2 = calls w @ [?entry]" using c1 by (simp add: select_wait_frame)
      show ?thesis
      proof (cases "Suc i < maxRetries")
        case False
        with Suc.prems have "Suc i = maxRetries" by simp
        then show ?thesis using one retry_loop_exhausted [OF _ Inr True] by simp
      next
        case more: True
        show ?thesis
        proof (cases "fst (select_wait ?w1 ctx ?d)")
          case None
          have step: "retry_loop L ctx req i resp w = retry_loop L ctx req (Suc i) (Some r) ?w2"
            by (rule retry_loop_continue [OF more Inr True None])
          from Suc.hyps(2) more have n: "n = maxRetries - Suc i" by simp
          let ?k = "\<lparr>sent_at = now ?w2, returned_at = now (snd (Do ?w2 req)), sent = req,
                     returned = fst (Do ?w2 req)\<rparr>"
          from Suc.hyps(1) [OF n more, of "Some r" ?w2]
          obtain rest where rest:
            "calls (snd (retry_loop L ctx req (Suc i) (Some r) ?w2)) = calls ?w2 @ ?k # rest"
            "Suc (length rest) \<le> maxRetries - Suc i" "\<forall>k \<in> set rest. sent k = req"
            by blast
          show ?thesis
            using rest c2 more step by (intro exI [of _ "?k # rest"]) simp
        next
          case (Some e)
          have "retry_loop L ctx req i resp w = (Inl e, ?w2)"
            by (rule retry_loop_cancelled [OF more Inr True Some])
          then show ?thesis using c2 Suc.prems by (intro exI [of _ "[]"]) simp
        qed
      qed
    qed
  qed
qed

lemma ctx_Err_not_rate_limit: "\<not> IsRateLimitError (ctx_Err why)"
  by (cases why) simp_all

lemma select_wait_Some_time:
  "fst (select_wait w ctx d) = Some e \<Longrightarrow>
     \<exists>t why. ctx = DoneAt t why \<and> e = ctx_Err why \<and> t \<le> now w + max 0 d
        \<and> now (snd (select_wait w ctx d)) = max (now w) t"
  by (cases ctx) (auto simp: select_wait_def Let_def split: if_splits)

text \<open>When every call the loop makes returns a 429, the loop ends in one of two ways.\<close>

lemma retry_loop_all_429:
  assumes "i < maxRetries"
    and "\<forall>k \<in> set (drop (length (calls w)) (calls (snd (retry_loop L ctx req i resp w)))).
           \<exists>r. returned k = Inr r \<and> StatusCode r = StatusTooManyRequests"
  shows "(\<exists>r. returned (last (calls (snd (retry_loop L ctx req i resp w)))) = Inr r
            \<and> StatusCode r = StatusTooManyRequests
            \<and> fst (retry_loop L ctx req i resp w) =
                Inl (RateLimitError (getRetryAfter (frac L) (http_ParseTime L)
                       (returned_at (last (calls (snd (retry_loop L ctx req i resp w))))) r))
            \<and> length (calls (snd (retry_loop L ctx req i resp w)))
                = length (calls w) + (maxRetries - i))
       \<or> (\<exists>t why r. ctx = DoneAt t why
            \<and> returned (last (calls (snd (retry_loop L ctx req i resp w)))) = Inr r
            \<and> StatusCode r = StatusTooManyRequests
            \<and> t \<le> returned_at (last (calls (snd (retry_loop L ctx req i resp w))))
                  + max 0 (getRetryAfter (frac L) (http_ParseTime L)
                       (returned_at (last (calls (snd (retry_loop L ctx req i resp w))))) r)
            \<and> now (snd (retry_loop L ctx req i resp w))
                = max (returned_at (last (calls (snd (retry_loop L ctx req i resp w))))) t
            \<and> fst (retry_loop L ctx req i resp w) = Inl (ctx_Err why)
            \<and> length (calls w) < length (calls (snd (retry_loop L ctx req i resp w)))
            \<and> length (calls (snd (retry_loop L ctx req i resp w)))
                < length (calls w) + (maxRetries - i))"
  using assms
proof (induction "maxRetries - i" arbitrary: i resp w)
  case 0
  then show ?case by simp
next
  case (Suc n)
  let ?w1 = "snd (Do w req)"
  let ?entry = "\<lparr>sent_at = now w, returned_at = now ?w1, sent = req, returned = fst (Do w req)\<rparr>"
  from retry_loop_calls [OF Suc.prems(1), of L ctx req resp w] obtain rest where
    rest: "calls (snd (retry_loop L ctx req i resp w)) = calls w @ ?entry # rest" by blast
  with Suc.prems(2) obtain r where res: "fst (Do w req) = Inr r"
    and status: "StatusCode r = StatusTooManyRequests" by auto
  have c1: "calls ?w1 = calls w @ [?entry]" by (rule Do_calls)
  let ?d = "getRetryAfter (frac L) (http_ParseTime L) (now ?w1) r"
  let ?w2 = "snd (select_wait ?w1 ctx ?d)"
  show ?case
  proof (cases "Suc i < maxRetries")
    case False
    with Suc.prems(1) have last: "Suc i = maxRetries" by simp
    have "retry_loop L ctx req i resp w = (Inl (RateLimitError ?d), ?w1)"
      by (rule retry_loop_exhausted [OF last res status])
    then show ?thesis
      using last res status c1 by (intro disjI1 exI [of _ r]) auto
  next
    case more: True
    have c2: "calls ?w2 = calls w @ [?entry]" using c1 by (simp add: select_wait_frame)
    show ?thesis
    proof (cases "fst (select_wait ?w1 ctx ?d)")
      case (Some e)
      have loop: "retry_loop L ctx req i resp w = (Inl e, ?w2)"
        by (rule retry_loop_cancelled [OF more res status Some])
      from select_wait_Some_time [OF Some] obtain t why where
        "ctx = DoneAt t why" "e = ctx_Err why" "t \<le> now ?w1 + max 0 ?d"
        "now ?w2 = max (now ?w1) t"
        by blast
      then show ?thesis
        using loop c2 more res status
        by (intro disjI2 exI [of _ t] exI [of _ why] exI [of _ r]) simp
    next
      case None
      have step: "retry_loop L ctx req i resp w = retry_loop L ctx req (Suc i) (Some r) ?w2"
        by (rule retry_loop_continue [OF more res status None])
      from Suc.hyps(2) more have n: "n = maxRetries - Suc i" by simp
      have len2: "length (calls ?w2) = Suc (length (calls w))" by (simp add: c2)
      have all': "\<forall>k \<in> set (drop (length (calls ?w2))
                       (calls (snd (retry_loop L ctx req (Suc i) (Some r) ?w2)))).
           \<exists>r. returned k = Inr r \<and> StatusCode r = StatusTooManyRequests"
      proof
        fix k
        assume "k \<in> set (drop (length (calls ?w2))
                       (calls (snd (retry_loop L ctx req (Suc i) (Some r) ?w2))))"
        then have "k \<in> set (drop (Suc (length (calls w))) (calls (snd (retry_loop L ctx req i resp w))))"
          by (simp only: step len2)
        then have "k \<in> set (drop (length (calls w)) (calls (snd (retry_loop L ctx req i resp w))))"
          by (metis in_set_dropD drop_drop plus_1_eq_Suc)
        with Suc.prems(2) show "\<exists>r. returned k = Inr r \<and> StatusCode r = StatusTooManyRequests"
          by blast
      qed
      have cnt: "length (calls ?w2) + (maxRetries - Suc i) = length (calls w) + (maxRetries - i)"
        using more len2 by simp
      have lower: "length (calls w) < m" if "length (calls ?w2) < m" for m
        using that len2 by simp
      from Suc.hyps(1) [OF n more all'] show ?thesis
        unfolding step cnt using lower by blast
    qed
  qed
qed

lemma sample_delay: "getRetryAfter fr pt t (too_many ''1'') = Second"
  by (simp add: getRetryAfter_def too_many_def Header_Get_def ParseDuration_eval parse_loop.simps
        Second_def)

lemmas sample_eval =
  retry_loop.simps Do_def select_wait_def world_with_def sample_delay maxRetries_def
  StatusTooManyRequests_def Let_def Second_def

lemma sample_status: "StatusCode (too_many h) = 429" "StatusCode ok_response = 200"
  by (simp_all add: too_many_def ok_response_def)

lemma sample_run_always_429:
  "retry_loop sample_lib NeverDone sample_request 0 None (world_with always_429) =
     (Inl (RateLimitError 1000000000),
      \<lparr>now = 2015000000, transport = always_429,
       calls = [\<lparr>sent_at = 0, returned_at = 5000000, sent = sample_request,
                  returned = Inr (too_many ''1'')\<rparr>,
                \<lparr>sent_at = 1005000000, returned_at = 1010000000, sent = sample_request,
                  returned = Inr (too_many ''1'')\<rparr>,
                \<lparr>sent_at = 2010000000, returned_at = 2015000000, sent = sample_request,
                  returned = Inr (too_many ''1'')\<rparr>],
       timer_first = (\<lambda>n. True)\<rparr>)"
  by (simp add: sample_eval always_429_def sample_status)

lemma sample_run_cancelled:
  "retry_loop sample_lib (DoneAt 500000000 Canceled) sample_request 0 None (world_with always_429) =
     (Inl (Foreign ''context canceled''),
      \<lparr>now = 500000000, transport = always_429,
       calls = [\<lparr>sent_at = 0, returned_at = 5000000, sent = sample_request,
                  returned = Inr (too_many ''1'')\<rparr>],
       timer_first = (\<lambda>n. True)\<rparr>)"
  by (simp add: sample_eval always_429_def sample_status)

lemma sample_run_once_429:
  "retry_loop sample_lib NeverDone sample_request 0 None (world_with once_429) =
     (Inr (Some ok_response),
      \<lparr>now = 1010000000, transport = once_429,
       calls = [\<lparr>sent_at = 0, returned_at = 5000000, sent = sample_request,
                  returned = Inr (too_many ''1'')\<rparr>,
                \<lparr>sent_at = 1005000000, returned_at = 1010000000, sent = sample_request,
                  returned = Inr ok_response\<rparr>],
       timer_first = (\<lambda>n. True)\<rparr>)"
  by (simp add: sample_eval once_429_def sample_status)

lemma sample_world_calls: "calls (world_with tr) = []"
  by (simp add: world_with_def)

text \<open>
  Claim C1, as amended. Let the request be built and authorised, and let every transport
  attempt the call makes return status 429. Then either \<^verbatim>\<open>doRequest\<close> makes exactly three
  transport calls and returns a \<^verbatim>\<open>RateLimitError\<close>, a rate-limit error and not an API
  error, whose \<^verbatim>\<open>RetryAfter\<close> is the delay extracted from the response of the last call at
  the time it returned; or the context is done no later than the end of the retry wait that
  follows the last attempt made, the first or the second (done at an instant \<open>t\<close> that is
  at most the instant that attempt returned plus the delay extracted from its response;
  it may be done before the wait begins), and the call returns the context's error, which
  is not a rate-limit error, after exactly one or exactly two transport calls, at the
  later of \<open>t\<close> and the instant the last attempt returned.
\<close>

theorem doRequest_rate_limit_exhausted:
  assumes build: "buildRequest L c method path query body = Inr req0"
    and auth: "addAuthentication L c w path req0 = (Inr req, c1, w1)"
    and all429: "\<forall>k \<in> set (drop (length (calls w1))
                      (calls (snd (snd (doRequest L ctx c w method path query body))))).
                   \<exists>r. returned k = Inr r \<and> StatusCode r = StatusTooManyRequests"
  shows "(\<exists>r. returned (last (calls (snd (snd (doRequest L ctx c w method path query body))))) = Inr r
            \<and> StatusCode r = StatusTooManyRequests
            \<and> fst (doRequest L ctx c w method path query body) =
                Inl (RateLimitError (getRetryAfter (frac L) (http_ParseTime L)
                       (returned_at (last (calls (snd (snd (doRequest L ctx c w method path query body))))))
                       r))
            \<and> IsRateLimitError (RateLimitError (getRetryAfter (frac L) (http_ParseTime L)
                       (returned_at (last (calls (snd (snd (doRequest L ctx c w method path query body))))))
                       r))
            \<and> \<not> IsAPIError (RateLimitError (getRetryAfter (frac L) (http_ParseTime L)
                       (returned_at (last (calls (snd (snd (doRequest L ctx c w method path query body))))))
                       r))
            \<and> length (calls (snd (snd (doRequest L ctx c w method path query body))))
                = length (calls w1) + 3)
       \<or> (\<exists>t why r. ctx = DoneAt t why
            \<and> returned (last (calls (snd (snd (doRequest L ctx c w method path query body))))) = Inr r
            \<and> StatusCode r = StatusTooManyRequests
            \<and> t \<le> returned_at (last (calls (snd (snd (doRequest L ctx c w method path query body)))))
                  + max 0 (getRetryAfter (frac L) (http_ParseTime L)
                       (returned_at (last (calls (snd (snd (doRequest L ctx c w method path query body))))))
                       r)
            \<and> now (snd (snd (doRequest L ctx c w method path query body)))
                = max (returned_at (last (calls (snd (snd (doRequest L ctx c w method path query body))))))
                      t
            \<and> fst (doRequest L ctx c w method path query body) = Inl (ctx_Err why)
            \<and> \<not> IsRateLimitError (ctx_Err why)
            \<and> (length (calls (snd (snd (doRequest L ctx c w method path query body))))
                  = length (calls w1) + 1
               \<or> length (calls (snd (snd (doRequest L ctx c w method path query body))))
                  = length (calls w1) + 2))"
proof -
  have eq: "doRequest L ctx c w method path query body =
      (fst (retry_loop L ctx req 0 None w1), c1, snd (retry_loop L ctx req 0 None w1))"
    by (rule doRequest_loop [OF build auth])
  have start: "0 < maxRetries" by (simp add: maxRetries_def)
  have all429': "\<forall>k \<in> set (drop (length (calls w1)) (calls (snd (retry_loop L ctx req 0 None w1)))).
                   \<exists>r. returned k = Inr r \<and> StatusCode r = StatusTooManyRequests"
    using all429 by (simp add: eq)
  have fst_eq: "fst (doRequest L ctx c w method path query body) = fst (retry_loop L ctx req 0 None w1)"
    and snd_eq: "snd (snd (doRequest L ctx c w method path query body)) = snd (retry_loop L ctx req 0 None w1)"
    by (simp_all add: eq)
  have count: "m = n + 1 \<or> m = n + 2" if "n < m" "m < n + (maxRetries - 0)" for m n :: nat
    using that by (auto simp: maxRetries_def)
  from retry_loop_all_429 [OF start all429']
  show ?thesis
  proof
    assume "\<exists>r. returned (last (calls (snd (retry_loop L ctx req 0 None w1)))) = Inr r
            \<and> StatusCode r = StatusTooManyRequests
            \<and> fst (retry_loop L ctx req 0 None w1) =
                Inl (RateLimitError (getRetryAfter (frac L) (http_ParseTime L)
                       (returned_at (last (calls (snd (retry_loop L ctx req 0 None w1))))) r))
            \<and> length (calls (snd (retry_loop L ctx req 0 None w1)))
                = length (calls w1) + (maxRetries - 0)"
    then show ?thesis by (intro disjI1) (simp add: eq maxRetries_def)
  next
    assume "\<exists>t why r. ctx = DoneAt t why
            \<and> returned (last (calls (snd (retry_loop L ctx req 0 None w1)))) = Inr r
            \<and> StatusCode r = StatusTooManyRequests
            \<and> t \<le> returned_at (last (calls (snd (retry_loop L ctx req 0 None w1))))
                  + max 0 (getRetryAfter (frac L) (http_ParseTime L)
                       (returned_at (last (calls (snd (retry_loop L ctx req 0 None w1))))) r)
            \<and> now (snd (retry_loop L ctx req 0 None w1))
                = max (returned_at (last (calls (snd (retry_loop L ctx req 0 None w1))))) t
            \<and> fst (retry_loop L ctx req 0 None w1) = Inl (ctx_Err why)
            \<and> length (calls w1) < length (calls (snd (retry_loop L ctx req 0 None w1)))
            \<and> length (calls (snd (retry_loop L ctx req 0 None w1)))
                < length (calls w1) + (maxRetries - 0)"
    then obtain t why r where *: "ctx = DoneAt t why"
      "returned (last (calls (snd (retry_loop L ctx req 0 None w1)))) = Inr r"
      "StatusCode r = StatusTooManyRequests"
      "t \<le> returned_at (last (calls (snd (retry_loop L ctx req 0 None w1))))
                  + max 0 (getRetryAfter (frac L) (http_ParseTime L)
                       (returned_at (last (calls (snd (retry_loop L ctx req 0 None w1))))) r)"
      "now (snd (retry_loop L ctx req 0 None w1))
                = max (returned_at (last (calls (snd (retry_loop L ctx req 0 None w1))))) t"
      "fst (retry_loop L ctx req 0 None w1) = Inl (ctx_Err why)"
      "length (calls w1) < length (calls (snd (retry_loop L ctx req 0 None w1)))"
      "length (calls (snd (retry_loop L ctx req 0 None w1)))
                < length (calls w1) + (maxRetries - 0)"
      by blast
    from count [OF *(7,8)] *(1-6) ctx_Err_not_rate_limit [of why]
    show ?thesis
      unfolding fst_eq snd_eq by blast
  qed
qed

theorem doRequest_rate_limit_exhausted_witness:
  "list_all (\<lambda>k. returned k = Inr (too_many ''1''))
     (calls (snd (snd (doRequest sample_lib NeverDone cached_client (world_with always_429)
          ''GET'' ''/flow/v1/block'' None None))))
   \<and> StatusCode (too_many ''1'') = StatusTooManyRequests
   \<and> fst (doRequest sample_lib NeverDone cached_client (world_with always_429)
          ''GET'' ''/flow/v1/block'' None None) = Inl (RateLimitError Second)
   \<and> length (calls (snd (snd (doRequest sample_lib NeverDone cached_client (world_with always_429)
          ''GET'' ''/flow/v1/block'' None None)))) = 3"
proof -
  have run: "doRequest sample_lib NeverDone cached_client (world_with always_429)
          ''GET'' ''/flow/v1/block'' None None =
      (fst (retry_loop sample_lib NeverDone sample_request 0 None (world_with always_429)),
       cached_client,
       snd (retry_loop sample_lib NeverDone sample_request 0 None (world_with always_429)))"
    by (rule doRequest_loop [OF sample_build sample_auth])
  have all429: "\<forall>k \<in> set (drop (length (calls (world_with always_429)))
                      (calls (snd (snd (doRequest sample_lib NeverDone cached_client
                         (world_with always_429) ''GET'' ''/flow/v1/block'' None None))))).
                   \<exists>r. returned k = Inr r \<and> StatusCode r = StatusTooManyRequests"
    by (simp add: run sample_run_always_429 sample_status StatusTooManyRequests_def
          sample_world_calls)
  from doRequest_rate_limit_exhausted [OF sample_build sample_auth all429]
  show ?thesis
    by (simp add: run sample_run_always_429 sample_status sample_delay StatusTooManyRequests_def
          sample_world_calls)
qed

theorem doRequest_rate_limit_cancelled_counterexample:
  "list_all (\<lambda>k. returned k = Inr (too_many ''1''))
     (calls (snd (snd (doRequest sample_lib (DoneAt 500000000 Canceled) cached_client
          (world_with always_429) ''GET'' ''/flow/v1/block'' None None))))
   \<and> StatusCode (too_many ''1'') = 429
   \<and> length (calls (snd (snd (doRequest sample_lib (DoneAt 500000000 Canceled) cached_client
          (world_with always_429) ''GET'' ''/flow/v1/block'' None None)))) = 1
   \<and> fst (doRequest sample_lib (DoneAt 500000000 Canceled) cached_client
          (world_with always_429) ''GET'' ''/flow/v1/block'' None None)
       = Inl (Foreign ''context canceled'')
   \<and> \<not> IsRateLimitError (Foreign ''context canceled'')"
  by (simp add: doRequest_loop [OF sample_build sample_auth] sample_run_cancelled sample_status)

lemma sample_build_empty:
  "buildRequest sample_lib empty_client ''GET'' ''/flow/v1/block'' None None = Inr sample_request0"
  by (simp add: buildRequest_def sample_lib_def empty_client_def sample_request0_def Header_Set_def)

lemma sample_exchange:
  "\<exists>k. getValidToken sample_lib empty_client (world_with exchange_then_429)
     = (Inr ''test-token'',
        empty_client\<lparr>accessToken := ''test-token'', tokenExpiry := 600000000000\<rparr>,
        (world_with exchange_then_429)\<lparr>now := 5000000, calls := [k]\<rparr>)"
  by (simp add: getValidToken_def GenerateToken_def DoRequestWithBasicAuth_def sample_lib_def
        empty_client_def Do_def world_with_def exchange_then_429_def Header_Set_def Let_def
        decodeResponse_def token_response_def sample_token_def Unix_def int64_def
        unixToInternal_def Second_def)

text \<open>
  Claim C10. In a \<^verbatim>\<open>doRequest\<close> call on a path other than the credential exchange's, the
  bearer token is obtained by the one \<^verbatim>\<open>getValidToken\<close> call made before the loop. The
  client state the call ends with is the one that call left, and every transport call made
  afterwards, at least one and at most three, sends one and the same request, whose
  \<^verbatim>\<open>Authorization\<close> header is "Bearer" followed by that token: no attempt reads the cache
  again or exchanges credentials, whatever the clock shows.
\<close>

theorem doRequest_token_once:
  assumes build: "buildRequest L c method path query body = Inr req0"
    and path: "path \<noteq> ''/auth/v1/generate''"
    and token: "getValidToken L c w = (Inr token, c1, w1)"
  shows "\<exists>new. fst (snd (doRequest L ctx c w method path query body)) = c1
           \<and> calls (snd (snd (doRequest L ctx c w method path query body))) = calls w1 @ new
           \<and> new \<noteq> [] \<and> length new \<le> 3
           \<and> (\<forall>k \<in> set new.
                 sent k = req0\<lparr>RequestHeader :=
                            Header_Set (RequestHeader req0) ''Authorization'' (''Bearer '' @ token)\<rparr>
               \<and> Header_Get (RequestHeader (sent k)) ''Authorization'' = ''Bearer '' @ token)"
proof -
  let ?req = "req0\<lparr>RequestHeader :=
                Header_Set (RequestHeader req0) ''Authorization'' (''Bearer '' @ token)\<rparr>"
  have auth: "addAuthentication L c w path req0 = (Inr ?req, c1, w1)"
    using path token by (simp add: addAuthentication_def)
  have eq: "doRequest L ctx c w method path query body =
      (fst (retry_loop L ctx ?req 0 None w1), c1, snd (retry_loop L ctx ?req 0 None w1))"
    by (rule doRequest_loop [OF build auth])
  have hdr: "Header_Get (RequestHeader ?req) ''Authorization'' = ''Bearer '' @ token"
    by (simp add: Header_Get_def Header_Set_def)
  have start: "0 < maxRetries" by (simp add: maxRetries_def)
  let ?k = "\<lparr>sent_at = now w1, returned_at = now (snd (Do w1 ?req)), sent = ?req,
             returned = fst (Do w1 ?req)\<rparr>"
  from retry_loop_calls [OF start, of L ctx ?req None w1] obtain rest where
    "calls (snd (retry_loop L ctx ?req 0 None w1)) = calls w1 @ ?k # rest"
    "Suc (length rest) \<le> maxRetries - 0" "\<forall>k \<in> set rest. sent k = ?req"
    by blast
  then show ?thesis
    using hdr by (intro exI [of _ "?k # rest"]) (simp add: eq maxRetries_def)
qed

theorem doRequest_token_once_witness:
  "accessToken (fst (snd (doRequest sample_lib NeverDone empty_client (world_with exchange_then_429)
          ''GET'' ''/flow/v1/block'' None None))) = ''test-token''
   \<and> 1 < length (calls (snd (snd (doRequest sample_lib NeverDone empty_client
          (world_with exchange_then_429) ''GET'' ''/flow/v1/block'' None None))))
   \<and> list_all (\<lambda>k. Header_Get (RequestHeader (sent k)) ''Authorization'' = ''Bearer test-token'')
        (drop 1 (calls (snd (snd (doRequest sample_lib NeverDone empty_client
          (world_with exchange_then_429) ''GET'' ''/flow/v1/block'' None None)))))"
proof -
  from sample_exchange obtain k where
    token: "getValidToken sample_lib empty_client (world_with exchange_then_429)
     = (Inr ''test-token'',
        empty_client\<lparr>accessToken := ''test-token'', tokenExpiry := 600000000000\<rparr>,
        (world_with exchange_then_429)\<lparr>now := 5000000, calls := [k]\<rparr>)" ..
  have path: "''/flow/v1/block'' \<noteq> ''/auth/v1/generate''" by simp
  from doRequest_token_once [OF sample_build_empty path token, of NeverDone]
  show ?thesis by (auto simp: list_all_iff)
qed



lemma sample_run_once_cancelled:
  "retry_loop sample_lib (DoneAt 500000000 Canceled) sample_request 0 None (world_with once_429) =
     (Inl (Foreign ''context canceled''),
      \<lparr>now = 500000000, transport = once_429,
       calls = [\<lparr>sent_at = 0, returned_at = 5000000, sent = sample_request,
                  returned = Inr (too_many ''1'')\<rparr>],
       timer_first = (\<lambda>n. True)\<rparr>)"
  by (simp add: sample_eval once_429_def sample_status)

text \<open>
  Claim C2, as amended. Let the request be built and authorised, let the transport answer
  the first attempt with a 429, returned at time \<open>t1\<close> with extracted delay \<open>d1\<close>, and
  answer a second attempt with a 2xx status, and let the context not be done by the end
  of the retry wait, \<open>t1 + max 0 d1\<close>. Then \<^verbatim>\<open>doRequest\<close> makes the second attempt and
  returns its 2xx response with a nil error; the log grows by exactly these two calls,
  both sending the same request; and the second is sent when the wait ends, no earlier
  than \<open>d1\<close> after the first returned.
\<close>

theorem doRequest_retry_then_success:
  assumes build: "buildRequest L c method path query body = Inr req0"
    and auth: "addAuthentication L c w path req0 = (Inr req, c1, w1)"
    and first: "transport w1 (length (calls w1)) req = (took1, Inr r1)"
    and status1: "StatusCode r1 = StatusTooManyRequests"
    and t1: "t1 = now w1 + int took1"
    and d1: "d1 = getRetryAfter (frac L) (http_ParseTime L) t1 r1"
    and live: "live_at ctx (t1 + max 0 d1)"
    and second: "transport w1 (Suc (length (calls w1))) req = (took2, Inr r2)"
    and status2: "200 \<le> StatusCode r2" "StatusCode r2 < 300"
  shows "fst (doRequest L ctx c w method path query body) = Inr (Some r2)
       \<and> calls (snd (snd (doRequest L ctx c w method path query body))) =
           calls w1 @
             [\<lparr>sent_at = now w1, returned_at = t1, sent = req, returned = Inr r1\<rparr>,
              \<lparr>sent_at = t1 + max 0 d1, returned_at = t1 + max 0 d1 + int took2, sent = req,
                returned = Inr r2\<rparr>]
       \<and> t1 + d1 \<le> sent_at (last (calls (snd (snd (doRequest L ctx c w method path query body)))))"
proof -
  let ?wA = "snd (Do w1 req)"
  let ?wB = "snd (select_wait ?wA ctx d1)"
  let ?wC = "snd (Do ?wB req)"
  let ?k1 = "\<lparr>sent_at = now w1, returned_at = t1, sent = req, returned = Inr r1\<rparr>"
  let ?k2 = "\<lparr>sent_at = t1 + max 0 d1, returned_at = t1 + max 0 d1 + int took2, sent = req,
              returned = Inr r2\<rparr>"
  have eq: "doRequest L ctx c w method path query body =
      (fst (retry_loop L ctx req 0 None w1), c1, snd (retry_loop L ctx req 0 None w1))"
    by (rule doRequest_loop [OF build auth])
  have more1: "Suc 0 < maxRetries" by (simp add: maxRetries_def)
  have resA: "fst (Do w1 req) = Inr r1" using first by (simp add: Do_result)
  have nowA: "now ?wA = t1" using first t1 by (simp add: Do_now)
  have callsA: "calls ?wA = calls w1 @ [?k1]" using Do_calls [of w1 req] resA nowA by simp
  have d1': "getRetryAfter (frac L) (http_ParseTime L) (now ?wA) r1 = d1" using d1 nowA by simp
  have timer: "fst (select_wait ?wA ctx d1) = None"
    using live nowA by (intro select_wait_live) simp
  then have timer': "fst (select_wait ?wA ctx
      (getRetryAfter (frac L) (http_ParseTime L) (now ?wA) r1)) = None"
    by (simp only: d1')
  have step: "retry_loop L ctx req 0 None w1 = retry_loop L ctx req (Suc 0) (Some r1) ?wB"
    using retry_loop_continue [OF more1 resA status1 timer'] by (simp only: d1')
  have nowB: "now ?wB = t1 + max 0 d1"
    using select_wait_timer [OF timer] nowA by simp
  have callsB: "calls ?wB = calls w1 @ [?k1]" using callsA by (simp add: select_wait_frame)
  have lenB: "length (calls ?wB) = Suc (length (calls w1))" by (simp add: callsB)
  have trB: "transport ?wB = transport w1" by (simp add: select_wait_frame Do_frame)
  have resB: "fst (Do ?wB req) = Inr r2" using second by (simp only: Do_result lenB trB) simp
  have nowC: "now ?wC = t1 + max 0 d1 + int took2"
    using second nowB by (simp only: Do_now lenB trB) simp
  have not429: "StatusCode r2 \<noteq> StatusTooManyRequests"
    using status2 by (simp add: StatusTooManyRequests_def)
  have loop: "retry_loop L ctx req 0 None w1 = (Inr (Some r2), ?wC)"
    unfolding step by (rule retry_loop_break [OF more1 resB not429])
  have callsC: "calls ?wC = calls w1 @ [?k1, ?k2]"
    using Do_calls [of ?wB req] callsB resB nowB nowC by simp
  show ?thesis by (simp add: eq loop callsC)
qed

theorem doRequest_retry_then_success_witness:
  "live_at (DoneAt 1007000000 Canceled) (5000000 + Second)
   \<and> fst (doRequest sample_lib (DoneAt 1007000000 Canceled) cached_client (world_with once_429)
          ''GET'' ''/flow/v1/block'' None None) = Inr (Some ok_response)
   \<and> calls (snd (snd (doRequest sample_lib (DoneAt 1007000000 Canceled) cached_client
          (world_with once_429) ''GET'' ''/flow/v1/block'' None None)))
       = [\<lparr>sent_at = 0, returned_at = 5000000, sent = sample_request,
            returned = Inr (too_many ''1'')\<rparr>,
          \<lparr>sent_at = 1005000000, returned_at = 1010000000, sent = sample_request,
            returned = Inr ok_response\<rparr>]
   \<and> (5000000 :: int) + Second \<le> 1005000000"
proof -
  have first: "transport (world_with once_429) (length (calls (world_with once_429)))
                 sample_request = (5000000, Inr (too_many ''1''))"
    by (simp add: world_with_def once_429_def)
  have status1: "StatusCode (too_many ''1'') = StatusTooManyRequests"
    by (simp add: too_many_def StatusTooManyRequests_def)
  have live: "live_at (DoneAt 1007000000 Canceled)
      (now (world_with once_429) + int 5000000
         + max 0 (getRetryAfter (frac sample_lib) (http_ParseTime sample_lib)
                    (now (world_with once_429) + int 5000000) (too_many ''1'')))"
    by (simp add: sample_delay world_with_def Second_def)
  have second: "transport (world_with once_429) (Suc (length (calls (world_with once_429))))
                 sample_request = (5000000, Inr ok_response)"
    by (simp add: world_with_def once_429_def)
  have status2: "200 \<le> StatusCode ok_response" "StatusCode ok_response < 300"
    by (simp_all add: sample_status)
  from doRequest_retry_then_success [OF sample_build sample_auth first status1 refl refl live
         second status2]
  show ?thesis
    by (simp add: sample_delay world_with_def Second_def)
qed

theorem doRequest_retry_cancelled_counterexample:
  "snd (transport (world_with once_429) 0 sample_request) = Inr (too_many ''1'')
   \<and> StatusCode (too_many ''1'') = 429
   \<and> snd (transport (world_with once_429) (Suc 0) sample_request) = Inr ok_response
   \<and> StatusCode ok_response = 200
   \<and> fst (doRequest sample_lib (DoneAt 500000000 Canceled) cached_client
          (world_with once_429) ''GET'' ''/flow/v1/block'' None None)
       = Inl (Foreign ''context canceled'')
   \<and> length (calls (snd (snd (doRequest sample_lib (DoneAt 500000000 Canceled) cached_client
          (world_with once_429) ''GET'' ''/flow/v1/block'' None None)))) = 1"
proof -
  have answers: "snd (transport (world_with once_429) 0 sample_request) = Inr (too_many ''1'')"
    "snd (transport (world_with once_429) (Suc 0) sample_request) = Inr ok_response"
    by (simp_all add: world_with_def once_429_def)
  show ?thesis
    by (simp add: answers doRequest_loop [OF sample_build sample_auth] sample_run_once_cancelled
          sample_status)
qed

text \<open>
  Claim C6. Let the request be built and authorised and the first transport attempt return
  a 429 at time \<open>t1\<close>, with extracted delay \<open>d1\<close>. If the context is done at an instant
  within the wait that follows (from \<open>t1\<close>, before \<open>t1 + d1\<close>), \<^verbatim>\<open>doRequest\<close> returns the
  context's error, which is not a rate-limit error, and only that one transport call was
  made. Likewise for the second wait: if the first wait ran to its end, the second attempt
  returned a 429 at time \<open>t2\<close> with delay \<open>d2\<close>, and the context is done from \<open>t2\<close>, before
  \<open>t2 + d2\<close>, the call returns the context's error after exactly two transport calls.
\<close>

theorem doRequest_cancelled_during_wait:
  assumes build: "buildRequest L c method path query body = Inr req0"
    and auth: "addAuthentication L c w path req0 = (Inr req, c1, w1)"
    and first: "transport w1 (length (calls w1)) req = (took1, Inr r1)"
    and status1: "StatusCode r1 = StatusTooManyRequests"
    and t1: "t1 = now w1 + int took1"
    and d1: "d1 = getRetryAfter (frac L) (http_ParseTime L) t1 r1"
  shows "(t1 \<le> cancel \<and> cancel < t1 + d1
            \<longrightarrow> fst (doRequest L (DoneAt cancel why) c w method path query body) = Inl (ctx_Err why)
                \<and> \<not> IsRateLimitError (ctx_Err why)
                \<and> length (calls (snd (snd (doRequest L (DoneAt cancel why) c w method path query body))))
                    = length (calls w1) + 1)
       \<and> (t1 + max 0 d1 < cancel
            \<and> transport w1 (Suc (length (calls w1))) req = (took2, Inr r2)
            \<and> StatusCode r2 = StatusTooManyRequests
            \<and> t2 = t1 + max 0 d1 + int took2
            \<and> d2 = getRetryAfter (frac L) (http_ParseTime L) t2 r2
            \<and> t2 \<le> cancel \<and> cancel < t2 + d2
            \<longrightarrow> fst (doRequest L (DoneAt cancel why) c w method path query body) = Inl (ctx_Err why)
                \<and> \<not> IsRateLimitError (ctx_Err why)
                \<and> length (calls (snd (snd (doRequest L (DoneAt cancel why) c w method path query body))))
                    = length (calls w1) + 2)"
proof -
  let ?ctx = "DoneAt cancel why"
  let ?wA = "snd (Do w1 req)"
  let ?wB = "snd (select_wait ?wA ?ctx d1)"
  let ?wC = "snd (Do ?wB req)"
  have eq: "doRequest L ?ctx c w method path query body =
      (fst (retry_loop L ?ctx req 0 None w1), c1, snd (retry_loop L ?ctx req 0 None w1))"
    by (rule doRequest_loop [OF build auth])
  have resA: "fst (Do w1 req) = Inr r1" using first by (simp add: Do_result)
  have nowA: "now ?wA = t1" using first t1 by (simp add: Do_now)
  have lenA: "length (calls ?wA) = length (calls w1) + 1" by (simp add: Do_calls [of w1 req])
  have d1': "getRetryAfter (frac L) (http_ParseTime L) (now ?wA) r1 = d1" using d1 nowA by simp
  have more1: "Suc 0 < maxRetries" and more2: "Suc (Suc 0) < maxRetries"
    by (simp_all add: maxRetries_def)
  have A: "fst (retry_loop L ?ctx req 0 None w1) = Inl (ctx_Err why)
         \<and> length (calls (snd (retry_loop L ?ctx req 0 None w1))) = length (calls w1) + 1"
    if "t1 \<le> cancel" "cancel < t1 + d1"
  proof -
    have sel: "select_wait ?wA ?ctx d1 = (Some (ctx_Err why), ?wA\<lparr>now := cancel\<rparr>)"
      using that nowA by (intro select_wait_interrupted) simp_all
    then have "fst (select_wait ?wA ?ctx (getRetryAfter (frac L) (http_ParseTime L) (now ?wA) r1))
        = Some (ctx_Err why)" by (simp only: d1') simp
    from retry_loop_cancelled [OF more1 resA status1 this]
    have "retry_loop L ?ctx req 0 None w1 = (Inl (ctx_Err why), ?wB)" by (simp only: d1')
    then show ?thesis using lenA by (simp add: select_wait_frame)
  qed
  have B: "fst (retry_loop L ?ctx req 0 None w1) = Inl (ctx_Err why)
         \<and> length (calls (snd (retry_loop L ?ctx req 0 None w1))) = length (calls w1) + 2"
    if later: "t1 + max 0 d1 < cancel"
      and second: "transport w1 (Suc (length (calls w1))) req = (took2, Inr r2)"
      and status2: "StatusCode r2 = StatusTooManyRequests"
      and t2: "t2 = t1 + max 0 d1 + int took2"
      and d2: "d2 = getRetryAfter (frac L) (http_ParseTime L) t2 r2"
      and during: "t2 \<le> cancel" "cancel < t2 + d2"
  proof -
    have timer: "fst (select_wait ?wA ?ctx d1) = None"
      using later nowA by (intro select_wait_live) simp
    then have timer': "fst (select_wait ?wA ?ctx
        (getRetryAfter (frac L) (http_ParseTime L) (now ?wA) r1)) = None"
      by (simp only: d1')
    have step: "retry_loop L ?ctx req 0 None w1 = retry_loop L ?ctx req (Suc 0) (Some r1) ?wB"
      using retry_loop_continue [OF more1 resA status1 timer'] by (simp only: d1')
    have nowB: "now ?wB = t1 + max 0 d1"
      using select_wait_timer [OF timer] nowA by simp
    have lenB: "length (calls ?wB) = Suc (length (calls w1))" using lenA by (simp add: select_wait_frame)
    have trB: "transport ?wB = transport w1" by (simp add: select_wait_frame Do_frame)
    have resB: "fst (Do ?wB req) = Inr r2" using second by (simp only: Do_result lenB trB) simp
    have nowC: "now ?wC = t2" using second t2 nowB by (simp only: Do_now lenB trB) simp
    have lenC: "length (calls ?wC) = length (calls w1) + 2" using lenB by (simp add: Do_calls [of ?wB req])
    have d2': "getRetryAfter (frac L) (http_ParseTime L) (now ?wC) r2 = d2" using d2 nowC by simp
    have sel: "select_wait ?wC ?ctx d2 = (Some (ctx_Err why), ?wC\<lparr>now := cancel\<rparr>)"
      using during nowC by (intro select_wait_interrupted) simp_all
    then have "fst (select_wait ?wC ?ctx (getRetryAfter (frac L) (http_ParseTime L) (now ?wC) r2))
        = Some (ctx_Err why)" by (simp only: d2') simp
    from retry_loop_cancelled [OF more2 resB status2 this]
    have "retry_loop L ?ctx req (Suc 0) (Some r1) ?wB
        = (Inl (ctx_Err why), snd (select_wait ?wC ?ctx d2))" by (simp only: d2')
    then show ?thesis unfolding step using lenC by (simp add: select_wait_frame)
  qed
  have fst_eq: "fst (doRequest L ?ctx c w method path query body) = fst (retry_loop L ?ctx req 0 None w1)"
    and snd_eq: "snd (snd (doRequest L ?ctx c w method path query body)) = snd (retry_loop L ?ctx req 0 None w1)"
    by (simp_all add: eq)
  show ?thesis
    unfolding fst_eq snd_eq using A B ctx_Err_not_rate_limit [of why] by blast
qed


theorem doRequest_cancelled_during_wait_witness:
  "fst (doRequest sample_lib (DoneAt 500000000 Canceled) cached_client (world_with always_429)
          ''GET'' ''/flow/v1/block'' None None) = Inl (Foreign ''context canceled'')
   \<and> length (calls (snd (snd (doRequest sample_lib (DoneAt 500000000 Canceled) cached_client
          (world_with always_429) ''GET'' ''/flow/v1/block'' None None)))) = 1
   \<and> fst (doRequest sample_lib (DoneAt 1500000000 DeadlineExceeded) cached_client
          (world_with always_429) ''GET'' ''/flow/v1/block'' None None)
        = Inl (Foreign ''context deadline exceeded'')
   \<and> length (calls (snd (snd (doRequest sample_lib (DoneAt 1500000000 DeadlineExceeded) cached_client
          (world_with always_429) ''GET'' ''/flow/v1/block'' None None)))) = 2"
proof -
  have first: "transport (world_with always_429) (length (calls (world_with always_429)))
                 sample_request = (5000000, Inr (too_many ''1''))"
    by (simp add: world_with_def always_429_def)
  have status1: "StatusCode (too_many ''1'') = StatusTooManyRequests"
    by (simp add: too_many_def StatusTooManyRequests_def)
  note inst = doRequest_cancelled_during_wait [OF sample_build sample_auth first status1 refl refl]
  from inst [where cancel = 500000000 and why = Canceled]
       inst [where cancel = 1500000000 and why = DeadlineExceeded and ?took2.0 = 5000000
               and ?r2.0 = "too_many ''1''" and ?t2.0 = 1010000000 and ?d2.0 = Second]
  show ?thesis
    by (simp add: sample_delay world_with_def always_429_def status1 Second_def)
qed


subsection \<open>Concurrent callers of the token cache\<close>

lemma proceed_callers_length:
  "proceed s i p = Some s' \<Longrightarrow> length (callers s') = length (callers s)"
  by (cases p) (auto simp: move_def split: if_splits)

lemma perform_callers_length:
  "perform a s = Some s' \<Longrightarrow> length (callers s') = length (callers s)"
  by (cases a) (auto simp: move_def proceed_callers_length split: if_splits sum.splits)

lemma proceed_clock: "proceed s i p = Some s' \<Longrightarrow> clock s' = clock s"
  by (cases p) (auto simp: move_def split: if_splits)

lemma perform_clock: "perform a s = Some s' \<Longrightarrow> clock s \<le> clock s'"
  by (cases a) (auto simp: move_def proceed_clock split: if_splits sum.splits)

lemma run_clock: "run as s = Some s' \<Longrightarrow> clock s \<le> clock s'"
proof (induction as arbitrary: s)
  case Nil
  then show ?case by simp
next
  case (Cons a as)
  then obtain s1 where "perform a s = Some s1" "run as s1 = Some s'"
    by (auto split: option.splits)
  with Cons.IH [of s1] perform_clock [of a s s1] show ?case by simp
qed

lemma usable_earlier: "usable token expiry T \<Longrightarrow> t \<le> T \<Longrightarrow> usable token expiry t"
  by (simp add: usable_def)

lemma stale_later: "\<not> usable token expiry t0 \<Longrightarrow> t0 \<le> t \<Longrightarrow> \<not> usable token expiry t"
  by (auto simp: usable_def)


lemma inv_Advance:
  "cache_inv c t0 T s \<Longrightarrow> cache_inv c t0 T (s\<lparr>clock := clock s + int d\<rparr>)"
  by (simp add: cache_inv_def)

lemma list_all_update: "list_all Q P \<Longrightarrow> Q p \<Longrightarrow> list_all Q (P[i := p])"
  by (auto simp: list_all_iff dest: set_update_subset_insert [THEN subsetD])

lemma no_holder_update: "no_holder P \<Longrightarrow> \<not> holds_lock p \<Longrightarrow> no_holder (P[i := p])"
  unfolding no_holder_def by (rule list_all_update)

lemma no_holder_nth: "no_holder P \<Longrightarrow> i < length P \<Longrightarrow> \<not> holds_lock (P ! i)"
  by (simp add: no_holder_def list_all_length)

lemma no_holder_acquire:
  "no_holder P \<Longrightarrow> i < length P \<Longrightarrow> holds_lock p \<Longrightarrow> one_holder (P[i := p])"
  unfolding one_holder_def
  by (rule exI [of _ i]) (simp add: no_holder_nth)

lemma one_holder_others:
  "one_holder P \<Longrightarrow> i < length P \<Longrightarrow> holds_lock (P ! i) \<Longrightarrow> j < length P \<Longrightarrow> j \<noteq> i
     \<Longrightarrow> \<not> holds_lock (P ! j)"
  unfolding one_holder_def by metis

lemma one_holder_release:
  "one_holder P \<Longrightarrow> i < length P \<Longrightarrow> holds_lock (P ! i) \<Longrightarrow> \<not> holds_lock p
     \<Longrightarrow> no_holder (P[i := p])"
  unfolding no_holder_def list_all_length
  by (auto simp: nth_list_update dest: one_holder_others)

lemma one_holder_keep:
  "one_holder P \<Longrightarrow> i < length P \<Longrightarrow> holds_lock (P ! i) \<Longrightarrow> holds_lock p
     \<Longrightarrow> one_holder (P[i := p])"
  unfolding one_holder_def
  by (rule exI [of _ i]) (metis length_list_update nth_list_update_eq nth_list_update_neq)

lemma one_holder_other:
  assumes "one_holder P" "i < length P" "\<not> holds_lock (P ! i)" "\<not> holds_lock p"
  shows "one_holder (P[i := p])"
proof -
  from assms(1) obtain k where k: "k < length P" "holds_lock (P ! k)"
    "\<forall>j < length P. j \<noteq> k \<longrightarrow> \<not> holds_lock (P ! j)"
    unfolding one_holder_def by blast
  with assms(3) have "k \<noteq> i" by auto
  with k assms(2,4) show ?thesis
    unfolding one_holder_def
    by (intro exI [of _ k]) (auto simp: nth_list_update)
qed

lemma exchange_elsewhere:
  assumes "AtExchange \<in> set P" "i < length P" "P ! i \<noteq> AtExchange"
  shows "AtExchange \<in> set (P[i := p])"
proof -
  from assms(1) obtain j where j: "j < length P" "P ! j = AtExchange"
    by (auto simp: in_set_conv_nth)
  with assms(3) have "j \<noteq> i" by auto
  with j have "(P[i := p]) ! j = AtExchange" "j < length (P[i := p])" by simp_all
  then show ?thesis by (metis nth_mem)
qed

lemma exchange_is_holder:
  assumes "one_holder P" "i < length P" "holds_lock (P ! i)" "P ! i \<noteq> AtExchange"
  shows "AtExchange \<notin> set P"
proof
  assume "AtExchange \<in> set P"
  then obtain j where j: "j < length P" "P ! j = AtExchange" by (auto simp: in_set_conv_nth)
  with assms(4) have "j \<noteq> i" by auto
  from one_holder_others [OF assms(1-3) j(1) this] j(2) show False by simp
qed

lemma no_exchange_unless_held: "no_holder P \<Longrightarrow> AtExchange \<notin> set P"
  by (auto simp: no_holder_def list_all_iff)

lemma inv_keep:
  assumes I: "cache_inv c t0 T s" and i: "i < length (callers s)"
    and old: "\<not> holds_lock (callers s ! i)" and new: "\<not> holds_lock p"
    and untouched: "exchanges s = 0 \<Longrightarrow> untouched c p"
  shows "cache_inv c t0 T (move s i p)"
proof -
  have "callers s ! i \<noteq> AtExchange" using old by auto
  then show ?thesis
    using I i old new untouched unfolding cache_inv_def move_def
    by (auto simp: list_all_update no_holder_update one_holder_other exchange_elsewhere)
qed


lemma inv_proceed:
  assumes I: "cache_inv c t0 T s"
    and stale: "\<not> usable (accessToken c) (tokenExpiry c) t0"
    and i: "i < length (callers s)"
    and step: "proceed s i (callers s ! i) = Some s'"
    and T: "clock s \<le> T"
  shows "cache_inv c t0 T s'"
proof (cases "callers s ! i")
  case AtRLock
  with step have s': "s' = move (s\<lparr>readers := Suc (readers s)\<rparr>) i AtRead"
    by (auto split: if_splits)
  have "cache_inv c t0 T (s\<lparr>readers := Suc (readers s)\<rparr>)" using I by (simp add: cache_inv_def)
  from inv_keep [OF this, of i AtRead] i AtRLock show ?thesis by (simp add: s')
next
  case AtRead
  let ?p = "AtCheck (accessToken (cache s)) (tokenExpiry (cache s))"
  from AtRead step have s': "s' = move (s\<lparr>readers := readers s - 1\<rparr>) i ?p" by simp
  have I': "cache_inv c t0 T (s\<lparr>readers := readers s - 1\<rparr>)" using I by (simp add: cache_inv_def)
  have "untouched c ?p" if "exchanges s = 0" using I that by (simp add: cache_inv_def)
  with inv_keep [OF I', of i ?p] i AtRead show ?thesis by (simp add: s')
next
  case (AtCheck token expiry)
  show ?thesis
  proof (cases "token \<noteq> [] \<and> clock s + Minute < expiry")
    case True
    with AtCheck step have s': "s' = move s i (Finished (Inr token))" by simp
    have "exchanges s \<noteq> 0"
    proof
      assume "exchanges s = 0"
      with I i AtCheck have "token = accessToken c" "expiry = tokenExpiry c" "t0 \<le> clock s"
        by (auto simp: cache_inv_def list_all_length)
      with True stale show False by (auto simp: usable_def)
    qed
    with inv_keep [OF I, of i "Finished (Inr token)"] i AtCheck show ?thesis by (simp add: s')
  next
    case False
    with AtCheck step have s': "s' = move s i AtLock" by auto
    from inv_keep [OF I, of i AtLock] i AtCheck show ?thesis by (simp add: s')
  qed
next
  case AtLock
  with step have s': "s' = move (s\<lparr>writer := True\<rparr>) i AtRecheck" and free: "\<not> writer s"
    by (auto split: if_splits)
  from I free have nh: "no_holder (callers s)" by (simp add: cache_inv_def)
  have "one_holder ((callers s)[i := AtRecheck])"
    by (rule no_holder_acquire [OF nh i]) simp
  moreover have "list_all (untouched c) ((callers s)[i := AtRecheck])" if "exchanges s = 0"
    using I that by (simp add: cache_inv_def list_all_update)
  moreover have "AtExchange \<in> set ((callers s)[i := AtRecheck])" if "AtExchange \<in> set (callers s)"
    using that no_exchange_unless_held [OF nh] by simp
  ultimately show ?thesis
    using I unfolding s' cache_inv_def move_def by auto
next
  case AtRecheck
  have held: "writer s"
  proof (rule ccontr)
    assume "\<not> writer s"
    with I have "no_holder (callers s)" by (simp add: cache_inv_def)
    from no_holder_nth [OF this i] show False by (simp add: AtRecheck)
  qed
  with I have oh: "one_holder (callers s)" by (simp add: cache_inv_def)
  have hl: "holds_lock (callers s ! i)" by (simp add: AtRecheck)
  have noex: "AtExchange \<notin> set (callers s)"
    by (rule exchange_is_holder [OF oh i hl]) (simp add: AtRecheck)
  show ?thesis
  proof (cases "accessToken (cache s) \<noteq> [] \<and> clock s + Minute < tokenExpiry (cache s)")
    case True
    let ?p = "Finished (Inr (accessToken (cache s)))"
    from True AtRecheck step have s': "s' = move (s\<lparr>writer := False\<rparr>) i ?p" by simp
    have rel: "no_holder ((callers s)[i := ?p])"
      by (rule one_holder_release [OF oh i hl]) simp
    have "exchanges s \<noteq> 0"
    proof
      assume "exchanges s = 0"
      with I have "cache s = c" "t0 \<le> clock s" by (auto simp: cache_inv_def)
      with True stale show False by (auto simp: usable_def)
    qed
    with I noex rel show ?thesis
      unfolding s' cache_inv_def move_def by auto
  next
    case False
    from False AtRecheck step have s': "s' = move (s\<lparr>exchanges := Suc (exchanges s)\<rparr>) i AtExchange"
      by auto
    have keep: "one_holder ((callers s)[i := AtExchange])"
      by (rule one_holder_keep [OF oh i hl]) simp
    have zero: "exchanges s = 0"
    proof (rule ccontr)
      assume "exchanges s \<noteq> 0"
      with I have "exchanges s = 1" by (simp add: cache_inv_def)
      with I noex have "usable (accessToken (cache s)) (tokenExpiry (cache s)) T"
        by (simp add: cache_inv_def)
      from usable_earlier [OF this T] False show False by (simp add: usable_def)
    qed
    have "AtExchange \<in> set ((callers s)[i := AtExchange])" using i by (simp add: set_update_memI)
    with I held keep zero show ?thesis
      unfolding s' cache_inv_def move_def by auto
  qed
next
  case AtExchange
  with step show ?thesis by simp
next
  case (Finished r)
  with step show ?thesis by simp
qed

lemma inv_Returns:
  assumes I: "cache_inv c t0 T s"
    and step: "perform (Returns i res) s = Some s'"
    and good: "exchange_good T (Returns i res)"
  shows "cache_inv c t0 T s'"
proof -
  from step have i: "i < length (callers s)" and at: "callers s ! i = AtExchange"
    by (auto split: if_splits)
  from good obtain tokenResp where res: "res = Inr tokenResp"
    and usable: "usable (AccessToken tokenResp) (Unix (Exp tokenResp)) T"
    by (cases res) auto
  let ?p = "Finished (Inr (AccessToken tokenResp))"
  from step i at res have s': "s' = move (s\<lparr>cache := (cache s)\<lparr>accessToken := AccessToken tokenResp,
                                               tokenExpiry := Unix (Exp tokenResp)\<rparr>,
                            writer := False\<rparr>) i ?p"
    by simp
  have held: "writer s"
  proof (rule ccontr)
    assume "\<not> writer s"
    with I have "no_holder (callers s)" by (simp add: cache_inv_def)
    from no_holder_nth [OF this i] show False by (simp add: at)
  qed
  with I have oh: "one_holder (callers s)" by (simp add: cache_inv_def)
  have hl: "holds_lock (callers s ! i)" by (simp add: at)
  have rel: "no_holder ((callers s)[i := ?p])"
    by (rule one_holder_release [OF oh i hl]) simp
  have "exchanges s \<noteq> 0"
  proof
    assume "exchanges s = 0"
    with I i at show False by (auto simp: cache_inv_def list_all_length)
  qed
  with I rel usable show ?thesis
    unfolding s' cache_inv_def move_def by auto
qed

lemma inv_perform:
  assumes I: "cache_inv c t0 T s"
    and stale: "\<not> usable (accessToken c) (tokenExpiry c) t0"
    and step: "perform a s = Some s'"
    and T: "clock s' \<le> T"
    and good: "exchange_good T a"
  shows "cache_inv c t0 T s'"
proof (cases a)
  case (Advance d)
  with step inv_Advance [OF I, of d] show ?thesis by auto
next
  case (Proceed i)
  with step have i: "i < length (callers s)" and p: "proceed s i (callers s ! i) = Some s'"
    by (auto split: if_splits)
  from proceed_clock [OF p] T have "clock s \<le> T" by simp
  from inv_proceed [OF I stale i p this] show ?thesis .
next
  case (Returns i res)
  with inv_Returns [OF I] step good show ?thesis by simp
qed

lemma inv_run:
  assumes "cache_inv c t0 T s"
    and "\<not> usable (accessToken c) (tokenExpiry c) t0"
    and "run as s = Some s'"
    and "clock s' \<le> T"
    and "\<forall>a \<in> set as. exchange_good T a"
  shows "cache_inv c t0 T s'"
  using assms
proof (induction as arbitrary: s)
  case Nil
  then show ?case by simp
next
  case (Cons a as)
  from Cons.prems(3) obtain s1 where s1: "perform a s = Some s1" "run as s1 = Some s'"
    by (auto split: option.splits)
  from run_clock [OF s1(2)] Cons.prems(4) have "clock s1 \<le> T" by simp
  from inv_perform [OF Cons.prems(1,2) s1(1) this] Cons.prems(5)
  have "cache_inv c t0 T s1" by simp
  from Cons.IH [OF this Cons.prems(2) s1(2) Cons.prems(4)] Cons.prems(5) show ?case by simp
qed

lemma inv_initial: "cache_inv c t0 T (initial n c t0)"
  by (simp add: cache_inv_def initial_def no_holder_def list_all_iff)


lemma run_callers_length: "run as s = Some s' \<Longrightarrow> length (callers s') = length (callers s)"
proof (induction as arbitrary: s)
  case Nil
  then show ?case by simp
next
  case (Cons a as)
  then obtain s1 where "perform a s = Some s1" "run as s1 = Some s'"
    by (auto split: option.splits)
  with Cons.IH [of s1] perform_callers_length [of a s s1] show ?case by simp
qed

text \<open>A caller running alone goes through the places in the order of the sequential
  \<^verbatim>\<open>getValidToken\<close> and ends with the same result and the same cache.\<close>

lemma lone_caller_cached:
  assumes "accessToken c \<noteq> [] \<and> now w + Minute < tokenExpiry c"
  shows "run [Proceed 0, Proceed 0, Proceed 0] (initial 1 c (now w)) =
           Some ((initial 1 c (now w))\<lparr>callers := [Finished (fst (getValidToken L c w))],
                                       cache := fst (snd (getValidToken L c w))\<rparr>)"
  using assms by (simp add: initial_def move_def getValidToken_def)

lemma lone_caller_refresh:
  assumes "\<not> (accessToken c \<noteq> [] \<and> now w + Minute < tokenExpiry c)"
  shows "run [Proceed 0, Proceed 0, Proceed 0, Proceed 0, Proceed 0,
              Returns 0 (fst (GenerateToken L c w (10 * Minute)))] (initial 1 c (now w)) =
           Some ((initial 1 c (now w))\<lparr>callers := [Finished (fst (getValidToken L c w))],
                                       cache := fst (snd (getValidToken L c w)),
                                       exchanges := 1\<rparr>)"
  using assms
  by (cases "GenerateToken L c w (10 * Minute)")
     (auto simp: initial_def move_def getValidToken_def split: sum.splits)

text \<open>
  Claim C9, as amended. Let \<open>n\<close> callers run \<^verbatim>\<open>getValidToken\<close> concurrently, under any
  schedule, from a cache that is stale or empty, and let every credential exchange of the
  run succeed with a token that still passes the token test at the end of the run: it is
  not empty, and the expiry that \<^verbatim>\<open>time.Unix\<close> stores for its \<^verbatim>\<open>Exp\<close> is more than a minute
  away. Then at most one credential exchange is started, and exactly one has been once
  all callers, at least one, have returned.
\<close>

theorem no_refresh_stampede:
  assumes run: "run as (initial n c t0) = Some s"
    and stale: "\<not> usable (accessToken c) (tokenExpiry c) t0"
    and good: "\<forall>a \<in> set as. exchange_good (clock s) a"
  shows "exchanges s \<le> 1
       \<and> (0 < n \<and> list_all is_Finished (callers s) \<longrightarrow> exchanges s = 1)"
proof -
  have I: "cache_inv c t0 (clock s) s"
    by (rule inv_run [OF inv_initial stale run order_refl good])
  then have le: "exchanges s \<le> 1" by (simp add: cache_inv_def)
  have len: "length (callers s) = n"
    using run_callers_length [OF run] by (simp add: initial_def)
  have "exchanges s \<noteq> 0" if n: "0 < n" and fin: "list_all is_Finished (callers s)"
  proof
    assume "exchanges s = 0"
    with I have "list_all (untouched c) (callers s)" by (simp add: cache_inv_def)
    with n len have u: "untouched c (callers s ! 0)" by (simp add: list_all_length)
    from fin n len have "is_Finished (callers s ! 0)" by (simp add: list_all_length)
    with u show False by (cases "callers s ! 0") simp_all
  qed
  with le show ?thesis by auto
qed

theorem no_refresh_stampede_witness:
  "run [Proceed 0, Proceed 1, Proceed 0, Proceed 1, Proceed 0, Proceed 1, Proceed 0, Proceed 0,
        Advance 5000000, Returns 0 (Inr sample_token), Proceed 1, Proceed 1]
       (initial 2 empty_client 0)
     = Some \<lparr>cache = empty_client\<lparr>accessToken := ''test-token'', tokenExpiry := 600000000000\<rparr>,
             readers = 0, writer = False, clock = 5000000, exchanges = 1,
             callers = [Finished (Inr ''test-token''), Finished (Inr ''test-token'')]\<rparr>
   \<and> \<not> usable (accessToken empty_client) (tokenExpiry empty_client) 0
   \<and> (1::nat) \<le> 1"
proof -
  let ?as = "[Proceed 0, Proceed 1, Proceed 0, Proceed 1, Proceed 0, Proceed 1, Proceed 0, Proceed 0,
        Advance 5000000, Returns 0 (Inr sample_token), Proceed 1, Proceed 1]"
  let ?s = "\<lparr>cache = empty_client\<lparr>accessToken := ''test-token'', tokenExpiry := 600000000000\<rparr>,
             readers = 0, writer = False, clock = 5000000, exchanges = 1,
             callers = [Finished (Inr ''test-token''), Finished (Inr ''test-token'')]\<rparr>"
  have run: "run ?as (initial 2 empty_client 0) = Some ?s"
    by (simp add: initial_def move_def empty_client_def sample_token_def Unix_def int64_def
        unixToInternal_def Second_def
          Minute_def numeral_2_eq_2)
  have stale: "\<not> usable (accessToken empty_client) (tokenExpiry empty_client) 0"
    by (simp add: usable_def empty_client_def)
  have good: "\<forall>a \<in> set ?as. exchange_good (clock ?s) a"
    by (simp add: usable_def sample_token_def Unix_def int64_def unixToInternal_def Second_def
        Minute_def)
  from no_refresh_stampede [OF run stale good] run stale show ?thesis by simp
qed

theorem refresh_repeated_counterexample:
  "run [Proceed 0, Proceed 1, Proceed 0, Proceed 1, Proceed 0, Proceed 1, Proceed 0, Proceed 0,
        Returns 0 (Inl (APIError 500 ''unavailable'')), Proceed 1, Proceed 1,
        Returns 1 (Inl (APIError 500 ''unavailable''))]
       (initial 2 empty_client 0)
     = Some \<lparr>cache = empty_client, readers = 0, writer = False, clock = 0, exchanges = 2,
             callers = [Finished (Inl (Wrapped ''failed to generate token''
                                        (APIError 500 ''unavailable''))),
                        Finished (Inl (Wrapped ''failed to generate token''
                                        (APIError 500 ''unavailable'')))]\<rparr>"
  by (simp add: initial_def move_def empty_client_def Minute_def Second_def numeral_2_eq_2)

end
